theory Spec2Isabelle
  imports Main
begin

section \<open>Strings and errors of the host language\<close>

text \<open>
  A string is a list of characters, and a character stands for the code unit of the same
  number, from 0 to 255 (the ISO 8859-1 range); text with code units beyond that is not
  represented. In this range \<open>trim\<close> removes from both ends exactly the characters that
  \<open>String.prototype.trim\<close> removes: tab, line feed, vertical tab, form feed, carriage
  return, space and no-break space (0xA0). \<open>toLowerCase\<close> maps the letters A to Z to a to z
  and leaves every other character alone; the accented capitals of the range are not
  lowered, which cannot change whether a string contains a word of ASCII letters.
\<close>

definition toLowerCase_char :: "char \<Rightarrow> char" where
  "toLowerCase_char c =
     (case map_of (zip ''ABCDEFGHIJKLMNOPQRSTUVWXYZ'' ''abcdefghijklmnopqrstuvwxyz'') c of
        Some l \<Rightarrow> l
      | None \<Rightarrow> c)"

definition toLowerCase :: "string \<Rightarrow> string" where
  "toLowerCase s = map toLowerCase_char s"

definition isWhiteSpace :: "char \<Rightarrow> bool" where
  "isWhiteSpace c \<longleftrightarrow>
     c \<in> set [CHR 0x09, CHR 0x0A, CHR 0x0B, CHR 0x0C, CHR 0x0D, CHR 0x20, CHR 0xA0]"

definition trim :: "string \<Rightarrow> string" where
  "trim s = rev (dropWhile isWhiteSpace (rev (dropWhile isWhiteSpace s)))"

fun startsWith :: "string \<Rightarrow> string \<Rightarrow> bool" where
  "startsWith s [] = True"
| "startsWith [] (p # ps) = False"
| "startsWith (c # s) (p # ps) = (c = p \<and> startsWith s ps)"

text \<open>\<open>str_includes s sub\<close> is \<open>s.includes(sub)\<close>: \<open>sub\<close> occurs in \<open>s\<close> as a contiguous run.\<close>

fun str_includes :: "string \<Rightarrow> string \<Rightarrow> bool" where
  "str_includes [] sub = (sub = [])"
| "str_includes (c # s) sub = (startsWith (c # s) sub \<or> str_includes s sub)"

text \<open>\<open>split_on d s\<close> is \<open>s.split(d)\<close> for a one-character separator \<open>d\<close>.\<close>

fun split_on :: "char \<Rightarrow> string \<Rightarrow> string list" where
  "split_on d [] = [[]]"
| "split_on d (c # s) =
     (if c = d then [] # split_on d s
      else (case split_on d s of [] \<Rightarrow> [[c]] | p # ps \<Rightarrow> (c # p) # ps))"

text \<open>Decimal rendering of a non-negative integer, as a template string interpolates it.\<close>

definition digit_char :: "nat \<Rightarrow> char" where
  "digit_char d = ''0123456789'' ! d"

fun string_of_nat :: "nat \<Rightarrow> string" where
  "string_of_nat n =
     (if n < 10 then [digit_char n]
      else string_of_nat (n div 10) @ [digit_char (n mod 10)])"

text \<open>
  A thrown value: an error object with a name and a message. \<open>new Error(msg)\<close> has the
  name \<open>Error\<close>; the browser driver raises errors of its own (for instance a timeout
  error). \<open>error_toString\<close> is what interpolating the error into a template string gives.
\<close>

datatype error = JsError (err_name: string) (err_message: string)

abbreviation Error :: "string \<Rightarrow> error" where
  "Error msg \<equiv> JsError ''Error'' msg"

definition error_toString :: "error \<Rightarrow> string" where
  "error_toString e =
     (if err_name e = [] then err_message e
      else if err_message e = [] then err_name e
      else err_name e @ '': '' @ err_message e)"

section \<open>Test configuration (src/config/test-config.ts)\<close>

record timeouts_t =
  short :: nat
  medium :: nat
  long :: nat
  pageLoad :: nat
  apiRequest :: nat

record urls_t =
  base :: string
  mentoring :: string

record viewport_t =
  width :: nat
  height :: nat

record viewports_t =
  desktop :: viewport_t
  tablet :: viewport_t
  mobile :: viewport_t

record retries_t =
  ci :: nat
  local :: nat

record screenshots_t =
  onFailure :: bool
  onSuccess :: bool
  fullPage :: bool

datatype video_quality = Low | Medium | High

record videos_t =
  enabled :: bool
  quality :: video_quality

record TestConfig =
  timeouts :: timeouts_t
  urls :: urls_t
  viewports :: viewports_t
  browsers :: "string list"
  retries :: retries_t
  screenshots :: screenshots_t
  videos :: videos_t

definition defaultTestConfig :: TestConfig where
  "defaultTestConfig =
     \<lparr> timeouts = \<lparr> short = 5000, medium = 15000, long = 30000,
                      pageLoad = 30000, apiRequest = 10000 \<rparr>,
       urls = \<lparr> base = ''https://job-portal-user-dev-skx7zw44dq-et.a.run.app'',
                  mentoring = ''/mentoring'' \<rparr>,
       viewports = \<lparr> desktop = \<lparr> width = 1920, height = 1080 \<rparr>,
                       tablet = \<lparr> width = 1024, height = 768 \<rparr>,
                       mobile = \<lparr> width = 375, height = 667 \<rparr> \<rparr>,
       browsers = [''chromium'', ''firefox'', ''webkit''],
       retries = \<lparr> ci = 2, local = 1 \<rparr>,
       screenshots = \<lparr> onFailure = True, onSuccess = False, fullPage = True \<rparr>,
       videos = \<lparr> enabled = True, quality = Medium \<rparr> \<rparr>"

text \<open>The three entries of \<open>environmentConfigs\<close>: the default bundle with fields replaced.\<close>

definition environmentConfigs_development :: TestConfig where
  "environmentConfigs_development =
     defaultTestConfig
       \<lparr> urls := \<lparr> base = ''https://job-portal-user-dev-skx7zw44dq-et.a.run.app'',
                    mentoring = ''/mentoring'' \<rparr> \<rparr>"

definition environmentConfigs_staging :: TestConfig where
  "environmentConfigs_staging =
     defaultTestConfig
       \<lparr> urls := \<lparr> base = ''https://staging.dealls.com'', mentoring = ''/mentoring'' \<rparr> \<rparr>"

definition environmentConfigs_production :: TestConfig where
  "environmentConfigs_production =
     defaultTestConfig
       \<lparr> urls := \<lparr> base = ''https://dealls.com'', mentoring = ''/mentoring'' \<rparr>,
         retries := \<lparr> ci = 3, local = 2 \<rparr> \<rparr>"

text \<open>
  The process environment is a map from variable names to values; an unset variable is
  \<open>None\<close>. \<open>process.env.TEST_ENV || 'development'\<close> falls back both when the variable is
  unset and when it is the empty string.
\<close>

definition getTestConfig :: "(string \<rightharpoonup> string) \<Rightarrow> TestConfig" where
  "getTestConfig env =
     (let environment =
            (case env ''TEST_ENV'' of
               None \<Rightarrow> ''development''
             | Some v \<Rightarrow> if v = [] then ''development'' else v)
      in if environment = ''staging'' then environmentConfigs_staging
         else if environment = ''production'' then environmentConfigs_production
         else environmentConfigs_development)"

section \<open>The browser driver\<close>

text \<open>
  The page objects drive a browser through the Playwright library, which is not part of
  the repository. It is a parameter of the model: a record of the library calls the page
  objects make, each a function on an arbitrary browser state \<open>'w\<close>. A call that can
  reject returns \<open>Inl\<close> of the error it throws. \<open>page.waitForTimeout\<close> is a timer: it
  changes the state and always resolves. \<open>page.$$\<close> returns the matched element handles,
  of which the page objects only use the number. \<open>page.locator\<close> builds a locator without
  touching the browser, so a locator is the selector it was built from.
\<close>

datatype locator = Locator string

datatype wait_state = Visible | Hidden

datatype load_state = Load | DomContentLoaded | NetworkIdle

record 'w driver =
  locator_toString :: "locator \<Rightarrow> string"
  locator_waitFor :: "locator \<Rightarrow> wait_state \<Rightarrow> nat \<Rightarrow> 'w \<Rightarrow> (error + unit) \<times> 'w"
  locator_clear :: "locator \<Rightarrow> 'w \<Rightarrow> (error + unit) \<times> 'w"
  locator_fill :: "locator \<Rightarrow> string \<Rightarrow> nat \<Rightarrow> 'w \<Rightarrow> (error + unit) \<times> 'w"
  locator_inputValue :: "locator \<Rightarrow> 'w \<Rightarrow> (error + string) \<times> 'w"
  locator_click :: "locator \<Rightarrow> nat \<Rightarrow> bool \<Rightarrow> 'w \<Rightarrow> (error + unit) \<times> 'w"
  locator_press :: "locator \<Rightarrow> string \<Rightarrow> 'w \<Rightarrow> (error + unit) \<times> 'w"
  locator_isVisible :: "locator \<Rightarrow> 'w \<Rightarrow> (error + bool) \<times> 'w"
  page_waitForLoadState :: "load_state \<Rightarrow> nat option \<Rightarrow> 'w \<Rightarrow> (error + unit) \<times> 'w"
  page_waitForTimeout :: "nat \<Rightarrow> 'w \<Rightarrow> 'w"
  page_queryAll :: "string \<Rightarrow> 'w \<Rightarrow> (error + nat) \<times> 'w"
  page_title :: "'w \<Rightarrow> (error + string) \<times> 'w"
  page_url :: "'w \<Rightarrow> string"
  page_textContent :: "string \<Rightarrow> 'w \<Rightarrow> (error + string option) \<times> 'w"
  expect_toContain_error :: "string \<Rightarrow> string \<Rightarrow> error"

text \<open>Every call into the driver is recorded, with its arguments, in the order made.\<close>

datatype event =
    EvWaitFor locator wait_state nat
  | EvClear locator
  | EvFill locator string nat
  | EvInputValue locator
  | EvClick locator nat bool
  | EvPress locator string
  | EvIsVisible locator
  | EvWaitForLoadState load_state "nat option"
  | EvWaitForTimeout nat
  | EvQueryAll string
  | EvTitle
  | EvUrl
  | EvTextContent string

text \<open>
  An asynchronous method is a function from the browser state to an outcome: the value
  returned or the error thrown, the driver calls made, and the browser state afterwards.
\<close>

record ('a, 'w) outcome =
  result :: "error + 'a"
  events :: "event list"
  after :: 'w

type_synonym ('a, 'w) action = "'w \<Rightarrow> ('a, 'w) outcome"

definition ret :: "'a \<Rightarrow> ('a, 'w) action" where
  "ret x w = \<lparr> result = Inr x, events = [], after = w \<rparr>"

definition throw :: "error \<Rightarrow> ('a, 'w) action" where
  "throw e w = \<lparr> result = Inl e, events = [], after = w \<rparr>"

text \<open>\<open>bnd m f\<close>: await \<open>m\<close>, then continue with \<open>f\<close>; an error of \<open>m\<close> skips \<open>f\<close>.\<close>

definition bnd :: "('a, 'w) action \<Rightarrow> ('a \<Rightarrow> ('b, 'w) action) \<Rightarrow> ('b, 'w) action" where
  "bnd m f w =
     (case result (m w) of
        Inl e \<Rightarrow> \<lparr> result = Inl e, events = events (m w), after = after (m w) \<rparr>
      | Inr x \<Rightarrow>
          \<lparr> result = result (f x (after (m w))),
            events = events (m w) @ events (f x (after (m w))),
            after = after (f x (after (m w))) \<rparr>)"

text \<open>\<open>try_catch m h\<close>: \<open>try { m } catch (error) { h error }\<close>.\<close>

definition try_catch :: "('a, 'w) action \<Rightarrow> (error \<Rightarrow> ('a, 'w) action) \<Rightarrow> ('a, 'w) action" where
  "try_catch m h w =
     (case result (m w) of
        Inr x \<Rightarrow> \<lparr> result = Inr x, events = events (m w), after = after (m w) \<rparr>
      | Inl e \<Rightarrow>
          \<lparr> result = result (h e (after (m w))),
            events = events (m w) @ events (h e (after (m w))),
            after = after (h e (after (m w))) \<rparr>)"

text \<open>\<open>call ev f\<close>: one call into the driver, recorded as the event \<open>ev\<close>.\<close>

definition call :: "event \<Rightarrow> ('w \<Rightarrow> (error + 'a) \<times> 'w) \<Rightarrow> ('a, 'w) action" where
  "call ev f w = \<lparr> result = fst (f w), events = [ev], after = snd (f w) \<rparr>"

section \<open>The base page object (src/pages/base-page.ts)\<close>

text \<open>
  An optional parameter with a default value is an \<open>option\<close>: \<open>None\<close> when the caller
  leaves it out.
\<close>

definition waitForElement :: "'w driver \<Rightarrow> locator \<Rightarrow> nat option \<Rightarrow> (unit, 'w) action" where
  "waitForElement D locator timeout_arg =
     (let timeout = (case timeout_arg of None \<Rightarrow> 30000 | Some t \<Rightarrow> t) in
      try_catch
        (call (EvWaitFor locator Visible timeout) (locator_waitFor D locator Visible timeout))
        (\<lambda>error. throw (Error (''Element not found within '' @ string_of_nat timeout
                                 @ ''ms: '' @ locator_toString D locator))))"

record click_options =
  opt_timeout :: "nat option"
  opt_force :: "bool option"

text \<open>
  \<open>options?.timeout || 10000\<close> and \<open>options?.force || false\<close>: a missing value, zero and
  false all give the right-hand side.
\<close>

definition clickElement :: "'w driver \<Rightarrow> locator \<Rightarrow> click_options option \<Rightarrow> (unit, 'w) action" where
  "clickElement D locator options =
     (let timeout_arg = (case options of None \<Rightarrow> None | Some opts \<Rightarrow> opt_timeout opts);
          force_arg = (case options of None \<Rightarrow> None | Some opts \<Rightarrow> opt_force opts);
          click_timeout = (case timeout_arg of None \<Rightarrow> 10000
                           | Some t \<Rightarrow> if t = 0 then 10000 else t);
          click_force = (case force_arg of None \<Rightarrow> False | Some b \<Rightarrow> b)
      in try_catch
           (bnd (waitForElement D locator timeout_arg) (\<lambda>_.
              call (EvClick locator click_timeout click_force)
                   (locator_click D locator click_timeout click_force)))
           (\<lambda>error. throw (Error (''Failed to click element '' @ locator_toString D locator
                                    @ '': '' @ error_toString error))))"

record type_options =
  opt_clear :: "bool option"
  opt_delay :: "nat option"

definition typeText ::
  "'w driver \<Rightarrow> locator \<Rightarrow> string \<Rightarrow> type_options option \<Rightarrow> (unit, 'w) action" where
  \<open>typeText D locator txt options =
     try_catch
       (bnd (waitForElement D locator None) (\<lambda>_.
        bnd (if (case options of None \<Rightarrow> None | Some opts \<Rightarrow> opt_clear opts) \<noteq> Some False
             then call (EvClear locator) (locator_clear D locator)
             else ret ()) (\<lambda>_.
        bnd (call (EvFill locator txt 10000) (locator_fill D locator txt 10000)) (\<lambda>_.
        bnd (call (EvInputValue locator) (locator_inputValue D locator)) (\<lambda>inputValue.
          if inputValue \<noteq> txt
          then throw (Error (''Text verification failed. Expected: "'' @ txt
                               @ ''", Actual: "'' @ inputValue @ ''"''))
          else ret ())))))
       (\<lambda>error. throw (Error (''Failed to type text "'' @ txt @ ''" into ''
                                @ locator_toString D locator @ '': '' @ error_toString error)))\<close>

definition isElementVisible :: "'w driver \<Rightarrow> locator \<Rightarrow> nat option \<Rightarrow> (bool, 'w) action" where
  "isElementVisible D locator timeout_arg =
     (let timeout = (case timeout_arg of None \<Rightarrow> 5000 | Some t \<Rightarrow> t) in
      try_catch
        (bnd (call (EvWaitFor locator Visible timeout) (locator_waitFor D locator Visible timeout))
             (\<lambda>_. ret True))
        (\<lambda>_. ret False))"

definition getPageTitle :: "'w driver \<Rightarrow> (string, 'w) action" where
  "getPageTitle D =
     try_catch (call EvTitle (page_title D))
       (\<lambda>error. throw (Error (''Failed to get page title: '' @ error_toString error)))"

definition getCurrentUrl :: "'w driver \<Rightarrow> (string, 'w) action" where
  "getCurrentUrl D w = \<lparr> result = Inr (page_url D w), events = [EvUrl], after = w \<rparr>"

definition waitForPageLoad :: "'w driver \<Rightarrow> nat option \<Rightarrow> (unit, 'w) action" where
  "waitForPageLoad D timeout_arg =
     (let timeout = (case timeout_arg of None \<Rightarrow> 30000 | Some t \<Rightarrow> t) in
      try_catch
        (call (EvWaitForLoadState NetworkIdle (Some timeout))
              (page_waitForLoadState D NetworkIdle (Some timeout)))
        (\<lambda>error. throw (Error (''Page failed to load within '' @ string_of_nat timeout
                                 @ ''ms: '' @ error_toString error))))"

definition wait :: "'w driver \<Rightarrow> nat \<Rightarrow> (unit, 'w) action" where
  "wait D milliseconds w =
     \<lparr> result = Inr (), events = [EvWaitForTimeout milliseconds],
       after = page_waitForTimeout D milliseconds w \<rparr>"

text \<open>\<open>expect(currentUrl).toContain(expectedPath)\<close> throws the library's error when it fails.\<close>

definition verifyCurrentUrl :: "'w driver \<Rightarrow> string \<Rightarrow> (unit, 'w) action" where
  "verifyCurrentUrl D expectedPath =
     bnd (getCurrentUrl D) (\<lambda>currentUrl.
       if str_includes currentUrl expectedPath then ret ()
       else throw (expect_toContain_error D currentUrl expectedPath))"

section \<open>The mentoring page object\<close>

text \<open>
  Console output is not modelled: it does not influence control flow. A \<open>for\<close> loop over
  a selector list is a recursive function on the list, named after the method it is in.
\<close>

definition pageTitle :: locator where
  \<open>pageTitle = Locator ''h1, [data-testid="page-title"], .page-title, .hero-title''\<close>

definition loadingSelectors :: "string list" where
  \<open>loadingSelectors =
     [''.loading'', ''.spinner'', ''.loader'', ''[data-loading]'',
      ''.skeleton'', ''.shimmer'', ''[class*="loading"]'']\<close>

definition contentSelectors :: "string list" where
  \<open>contentSelectors =
     [''.mentor-card'', ''.mentor-item'', ''.card'', ''.profile-card'',
      ''[data-testid*="mentor"]'', ''.mentor'', ''[class*="mentor"]'',
      ''.grid'', ''.flex'', ''[class*="grid"]'', ''[class*="flex"]'',
      ''main'', ''.main'', ''.content'', ''.container'']\<close>

definition searchSelectors :: "string list" where
  \<open>searchSelectors =
     [''input[type="search"]'',
      ''input[placeholder*="search" i]'',
      ''input[placeholder*="cari" i]'',
      ''input[placeholder*="mentor" i]'',
      ''.search-input'',
      ''[data-testid*="search"]'',
      ''input[name*="search"]'']\<close>

definition searchButtonSelectors :: "string list" where
  \<open>searchButtonSelectors =
     [''button[type="submit"]'',
      ''button:has-text("Search")'',
      ''button:has-text("Cari")'',
      ''.search-button'',
      ''[data-testid*="search-button"]'']\<close>

definition cardSelectors :: "string list" where
  \<open>cardSelectors =
     [''.mentor-card'', ''.mentor-item'', ''.card'', ''.profile-card'',
      ''[data-testid*="mentor"]'', ''.mentor'', ''[class*="mentor"]'',
      ''.grid > div'', ''.flex > div'', ''[class*="grid"] > div'',
      ''.container > div'', ''.content > div'']\<close>

definition noResultsSelectors :: "string list" where
  \<open>noResultsSelectors =
     [''.no-results'', ''.empty-state'', ''[data-testid="no-results"]'',
      ''.empty'', ''.not-found'', ''[class*="empty"]'']\<close>

subsection \<open>getMentorCount\<close>

text \<open>
  The loop over the card selectors carries \<open>maxCount\<close> and \<open>workingSelector\<close>; a query
  that throws is skipped by the empty \<open>catch\<close>.
\<close>

fun getMentorCount_scan ::
  "'w driver \<Rightarrow> string list \<Rightarrow> nat \<times> string \<Rightarrow> (nat \<times> string, 'w) action" where
  "getMentorCount_scan D [] acc = ret acc"
| "getMentorCount_scan D (selector # rest) acc =
     bnd (try_catch
            (bnd (call (EvQueryAll selector) (page_queryAll D selector)) (\<lambda>elements_length.
               if elements_length > fst acc then ret (elements_length, selector) else ret acc))
            (\<lambda>_. ret acc))
         (\<lambda>acc'. getMentorCount_scan D rest acc')"

text \<open>The loop over the no-results selectors: \<open>True\<close> when it reaches its \<open>return 0\<close>.\<close>

fun getMentorCount_noResults :: "'w driver \<Rightarrow> string list \<Rightarrow> (bool, 'w) action" where
  "getMentorCount_noResults D [] = ret False"
| "getMentorCount_noResults D (selector # rest) =
     bnd (isElementVisible D (Locator selector) None) (\<lambda>visible.
       if visible then ret True else getMentorCount_noResults D rest)"

definition getMentorCount :: "'w driver \<Rightarrow> (nat, 'w) action" where
  "getMentorCount D =
     bnd (wait D 2000) (\<lambda>_.
     bnd (getMentorCount_scan D cardSelectors (0, [])) (\<lambda>(maxCount, workingSelector).
       if maxCount > 0 then ret maxCount
       else bnd (getMentorCount_noResults D noResultsSelectors) (\<lambda>found.
              if found then ret 0 else ret maxCount)))"

subsection \<open>waitForSearchResults\<close>

fun waitForSearchResults_loading :: "'w driver \<Rightarrow> string list \<Rightarrow> (unit, 'w) action" where
  "waitForSearchResults_loading D [] = ret ()"
| "waitForSearchResults_loading D (selector # rest) =
     bnd (try_catch
            (bnd (isElementVisible D (Locator selector) (Some 2000)) (\<lambda>visible.
               if visible
               then call (EvWaitFor (Locator selector) Hidden 15000)
                         (locator_waitFor D (Locator selector) Hidden 15000)
               else ret ()))
            (\<lambda>_. ret ()))
         (\<lambda>_. waitForSearchResults_loading D rest)"

definition waitForSearchResults :: "'w driver \<Rightarrow> (unit, 'w) action" where
  "waitForSearchResults D =
     bnd (waitForSearchResults_loading D loadingSelectors) (\<lambda>_.
     bnd (wait D 3000) (\<lambda>_.
     bnd (getMentorCount D) (\<lambda>beforeCount.
     bnd (wait D 2000) (\<lambda>_.
     bnd (getMentorCount D) (\<lambda>afterCount.
       if beforeCount = afterCount then ret () else wait D 2000)))))"

subsection \<open>searchMentors\<close>

text \<open>
  The loop that looks for the search input returns \<open>searchInput\<close> (\<open>None\<close> for \<open>null\<close>) and
  \<open>workingSelector\<close>; the loop over the button selectors returns \<open>searchSubmitted\<close>.
\<close>

fun searchMentors_findInput ::
  "'w driver \<Rightarrow> string list \<Rightarrow> (locator option \<times> string, 'w) action" where
  "searchMentors_findInput D [] = ret (None, [])"
| "searchMentors_findInput D (selector # rest) =
     bnd (isElementVisible D (Locator selector) (Some 2000)) (\<lambda>visible.
       if visible then ret (Some (Locator selector), selector)
       else searchMentors_findInput D rest)"

fun searchMentors_submit :: "'w driver \<Rightarrow> string list \<Rightarrow> (bool, 'w) action" where
  "searchMentors_submit D [] = ret False"
| "searchMentors_submit D (selector # rest) =
     bnd (isElementVisible D (Locator selector) (Some 1000)) (\<lambda>visible.
       if visible then bnd (clickElement D (Locator selector) None) (\<lambda>_. ret True)
       else searchMentors_submit D rest)"

definition searchMentors :: "'w driver \<Rightarrow> string \<Rightarrow> (unit, 'w) action" where
  "searchMentors D keyword =
     (if keyword = [] \<or> length (trim keyword) = 0
      then throw (Error ''Search keyword cannot be empty'')
      else
        bnd (waitForPageLoad D None) (\<lambda>_.
        bnd (searchMentors_findInput D searchSelectors) (\<lambda>(searchInput, workingSelector).
          case searchInput of
            None \<Rightarrow> throw (Error ''Search input not available on the page'')
          | Some input \<Rightarrow>
              bnd (typeText D input keyword None) (\<lambda>_.
              bnd (searchMentors_submit D searchButtonSelectors) (\<lambda>searchSubmitted.
              bnd (if \<not> searchSubmitted
                   then call (EvPress input ''Enter'') (locator_press D input ''Enter'')
                   else ret ()) (\<lambda>_.
              waitForSearchResults D))))))"

subsection \<open>verifyPageLoaded\<close>

fun verifyPageLoaded_loading :: "'w driver \<Rightarrow> string list \<Rightarrow> (unit, 'w) action" where
  "verifyPageLoaded_loading D [] = ret ()"
| "verifyPageLoaded_loading D (selector # rest) =
     bnd (try_catch
            (bnd (call (EvIsVisible (Locator selector)) (locator_isVisible D (Locator selector)))
               (\<lambda>visible.
                 if visible
                 then call (EvWaitFor (Locator selector) Hidden 15000)
                           (locator_waitFor D (Locator selector) Hidden 15000)
                 else ret ()))
            (\<lambda>_. ret ()))
         (\<lambda>_. verifyPageLoaded_loading D rest)"

fun verifyPageLoaded_content :: "'w driver \<Rightarrow> string list \<Rightarrow> (bool, 'w) action" where
  "verifyPageLoaded_content D [] = ret False"
| "verifyPageLoaded_content D (selector # rest) =
     bnd (call (EvQueryAll selector) (page_queryAll D selector)) (\<lambda>elements_length.
       if elements_length > 0 then ret True else verifyPageLoaded_content D rest)"

text \<open>
  \<open>bodyText?.split(' ').length || 0\<close>: zero when the body has no text content at all,
  otherwise the number of pieces between spaces, which is at least one.
\<close>

definition verifyPageLoaded :: "'w driver \<Rightarrow> (unit, 'w) action" where
  \<open>verifyPageLoaded D =
     bnd (waitForElement D pageTitle (Some 20000)) (\<lambda>_.
     bnd (getPageTitle D) (\<lambda>title.
       let titleLower = toLowerCase title in
       if \<not> str_includes titleLower ''mentoring'' \<and> \<not> str_includes titleLower ''mentor''
          \<and> \<not> str_includes titleLower ''karir''
       then throw (Error (''Page title does not indicate mentoring page. Actual title: "''
                            @ title @ ''"''))
       else
         bnd (verifyCurrentUrl D ''/mentoring'') (\<lambda>_.
         bnd (call (EvWaitForLoadState DomContentLoaded None)
                   (page_waitForLoadState D DomContentLoaded None)) (\<lambda>_.
         bnd (call (EvWaitForLoadState NetworkIdle None)
                   (page_waitForLoadState D NetworkIdle None)) (\<lambda>_.
         bnd (verifyPageLoaded_loading D loadingSelectors) (\<lambda>_.
         bnd (wait D 3000) (\<lambda>_.
         bnd (call (EvTextContent ''body'') (page_textContent D ''body'')) (\<lambda>bodyText.
           let wordCount = (case bodyText of None \<Rightarrow> 0
                            | Some t \<Rightarrow> length (split_on (CHR '' '') t)) in
           if wordCount < 50
           then throw (Error (''Page appears to be empty or not fully loaded. Word count: ''
                                @ string_of_nat wordCount))
           else bnd (verifyPageLoaded_content D contentSelectors) (\<lambda>contentFound.
                  ret ())))))))))\<close>

section \<open>Measures on the recorded driver calls\<close>

text \<open>
  One count sample is one run of \<open>getMentorCount\<close>, which queries every card selector
  once: \<open>queryCount\<close> counts the element queries. \<open>timerTotal\<close> adds up the timers
  requested through \<open>page.waitForTimeout\<close>; the time a run takes is at least this much.
  \<open>settleDelay\<close> is the delay between the two samples of \<open>waitForSearchResults\<close>.
\<close>

fun isQuery :: "event \<Rightarrow> bool" where
  "isQuery (EvQueryAll selector) = True"
| "isQuery _ = False"

definition queryCount :: "event list \<Rightarrow> nat" where
  "queryCount evs = length (filter isQuery evs)"

fun timer :: "event \<Rightarrow> nat" where
  "timer (EvWaitForTimeout milliseconds) = milliseconds"
| "timer _ = 0"

definition timerTotal :: "event list \<Rightarrow> nat" where
  "timerTotal evs = sum_list (map timer evs)"

definition settleDelay :: nat where
  "settleDelay = 2000"

text \<open>The probe \<open>isElementVisible\<close> makes for a selector with a given timeout.\<close>

definition probe :: "nat \<Rightarrow> string \<Rightarrow> event" where
  "probe timeout selector = EvWaitFor (Locator selector) Visible timeout"

section \<open>A concrete driver\<close>

text \<open>
  A simulated page for running the page objects on concrete inputs. Its state is a clock,
  advanced by the timers, and the content of the one input field. \<open>vis\<close> says which
  locators are visible, \<open>cnt\<close> how many elements match a selector at a given time,
  \<open>ttl\<close> is the document title and \<open>fmt\<close> is what the field turns typed text into.
\<close>

record sim =
  clock :: nat
  field :: string

definition simDriver ::
  "(locator \<Rightarrow> bool) \<Rightarrow> (string \<Rightarrow> nat \<Rightarrow> nat) \<Rightarrow> string \<Rightarrow> (string \<Rightarrow> string) \<Rightarrow> sim driver" where
  "simDriver vis cnt ttl fmt =
     \<lparr> locator_toString = (\<lambda>l. case l of Locator selector \<Rightarrow> selector),
       locator_waitFor = (\<lambda>l st timeout w.
          (if (st = Visible) = vis l then Inr ()
           else Inl (JsError ''TimeoutError'' ''Timeout exceeded''), w)),
       locator_clear = (\<lambda>l w. (Inr (), w\<lparr>field := []\<rparr>)),
       locator_fill = (\<lambda>l txt timeout w. (Inr (), w\<lparr>field := fmt txt\<rparr>)),
       locator_inputValue = (\<lambda>l w. (Inr (field w), w)),
       locator_click = (\<lambda>l timeout force w. (Inr (), w)),
       locator_press = (\<lambda>l key w. (Inr (), w)),
       locator_isVisible = (\<lambda>l w. (Inr (vis l), w)),
       page_waitForLoadState = (\<lambda>st timeout w. (Inr (), w)),
       page_waitForTimeout = (\<lambda>milliseconds w. w\<lparr>clock := clock w + milliseconds\<rparr>),
       page_queryAll = (\<lambda>selector w. (Inr (cnt selector (clock w)), w)),
       page_title = (\<lambda>w. (Inr ttl, w)),
       page_url = (\<lambda>w. ''https://dealls.com/mentoring''),
       page_textContent = (\<lambda>selector w. (Inr (Some ''Mentoring''), w)),
       expect_toContain_error = (\<lambda>actual expected. Error ''expect(received).toContain(expected)'') \<rparr>"

definition sim0 :: sim where
  "sim0 = \<lparr> clock = 0, field = [] \<rparr>"

text \<open>Pages used as concrete inputs.\<close>

definition cardsPage :: "sim driver" where
  "cardsPage =
     simDriver (\<lambda>l. False)
       (\<lambda>selector t. if selector = ''.mentor-card'' then 3
                       else if selector = ''.card'' then 7 else 0)
       ''Mentoring'' id"

definition emptyPage :: "sim driver" where
  "emptyPage = simDriver (\<lambda>l. False) (\<lambda>selector t. 0) ''Mentoring'' id"

definition noResultsPage :: "sim driver" where
  "noResultsPage =
     simDriver (\<lambda>l. l = Locator ''.empty-state'') (\<lambda>selector t. 0) ''Mentoring'' id"

definition searchPage :: "sim driver" where
  \<open>searchPage =
     simDriver (\<lambda>l. l = Locator ''.search-input'' \<or> l = Locator ''input[name*="search"]'')
       (\<lambda>selector t. 0) ''Mentoring'' id\<close>

definition maskedPage :: "sim driver" where
  \<open>maskedPage =
     simDriver (\<lambda>l. l = Locator ''.search-input'' \<or> l = Locator ''input[name*="search"]'')
       (\<lambda>selector t. 0) ''Mentoring'' (take 3)\<close>

definition mentorPage :: "sim driver" where
  "mentorPage = simDriver (\<lambda>l. l = pageTitle) (\<lambda>selector t. 0) ''Cari Mentor | Dealls'' id"

definition notFoundPage :: "sim driver" where
  "notFoundPage = simDriver (\<lambda>l. l = pageTitle) (\<lambda>selector t. 0) ''404 Not Found'' id"

text \<open>A page on which one more mentor card appears with every second that passes.\<close>

definition growingPage :: "sim driver" where
  "growingPage =
     simDriver (\<lambda>l. False)
       (\<lambda>selector t. if selector = ''.mentor-card'' then t div 1000 else 0)
       ''Mentoring'' id"

section \<open>Auxiliary functions\<close>

text \<open>
  What one round of the card-selector loop does to \<open>(maxCount, workingSelector)\<close> when
  the query for the selector answers \<open>q selector\<close>, and the counts of the queries of a
  selector list that succeed.
\<close>

definition scan_step :: "(string \<Rightarrow> error + nat) \<Rightarrow> string \<Rightarrow> nat \<times> string \<Rightarrow> nat \<times> string" where
  "scan_step q selector acc =
     (case q selector of Inr n \<Rightarrow> if n > fst acc then (n, selector) else acc | Inl e \<Rightarrow> acc)"

definition found :: "(string \<Rightarrow> error + nat) \<Rightarrow> string list \<Rightarrow> nat list" where
  "found q sels = concat (map (\<lambda>selector. case q selector of Inr n \<Rightarrow> [n] | Inl e \<Rightarrow> []) sels)"

text \<open>The driver calls that type into a field.\<close>

fun isFill :: "event \<Rightarrow> bool" where
  "isFill (EvFill l t n) = True"
| "isFill _ = False"

section \<open>Configuration selection\<close>

text \<open>
  C9. The configuration returned by \<open>getTestConfig\<close> is decided by the single environment
  variable \<open>TEST_ENV\<close>: two environments that agree on it get the same configuration. The
  values \<open>development\<close>, \<open>staging\<close> and \<open>production\<close> select the profile of that name, the
  three profiles are pairwise different, no other configuration is ever returned, and
  an unset variable gives the development profile.
\<close>

theorem getTestConfig_selection:
  "(env ''TEST_ENV'' = None \<longrightarrow> getTestConfig env = environmentConfigs_development)
   \<and> (env ''TEST_ENV'' = Some ''development'' \<longrightarrow>
        getTestConfig env = environmentConfigs_development)
   \<and> (env ''TEST_ENV'' = Some ''staging'' \<longrightarrow> getTestConfig env = environmentConfigs_staging)
   \<and> (env ''TEST_ENV'' = Some ''production'' \<longrightarrow>
        getTestConfig env = environmentConfigs_production)
   \<and> getTestConfig env \<in> {environmentConfigs_development, environmentConfigs_staging,
                            environmentConfigs_production}
   \<and> (\<forall>env'. env' ''TEST_ENV'' = env ''TEST_ENV'' \<longrightarrow> getTestConfig env' = getTestConfig env)
   \<and> environmentConfigs_development \<noteq> environmentConfigs_staging
   \<and> environmentConfigs_development \<noteq> environmentConfigs_production
   \<and> environmentConfigs_staging \<noteq> environmentConfigs_production"
proof -
  have sel: "\<forall>env'. env' ''TEST_ENV'' = env ''TEST_ENV'' \<longrightarrow> getTestConfig env' = getTestConfig env"
    by (simp add: getTestConfig_def)
  have d1: "environmentConfigs_development \<noteq> environmentConfigs_staging"
    by (simp add: environmentConfigs_development_def environmentConfigs_staging_def
        defaultTestConfig_def)
  have d2: "environmentConfigs_development \<noteq> environmentConfigs_production"
    by (simp add: environmentConfigs_development_def environmentConfigs_production_def
        defaultTestConfig_def)
  have d3: "environmentConfigs_staging \<noteq> environmentConfigs_production"
    by (simp add: environmentConfigs_staging_def environmentConfigs_production_def
        defaultTestConfig_def)
  have mem: "getTestConfig env \<in> {environmentConfigs_development, environmentConfigs_staging,
                            environmentConfigs_production}"
    by (simp add: getTestConfig_def Let_def split: option.split)
  have unset: "env ''TEST_ENV'' = None \<longrightarrow> getTestConfig env = environmentConfigs_development"
    by (simp add: getTestConfig_def)
  have dev: "env ''TEST_ENV'' = Some ''development'' \<longrightarrow>
        getTestConfig env = environmentConfigs_development"
    by (simp add: getTestConfig_def)
  have stg: "env ''TEST_ENV'' = Some ''staging'' \<longrightarrow> getTestConfig env = environmentConfigs_staging"
    by (simp add: getTestConfig_def)
  have prd: "env ''TEST_ENV'' = Some ''production'' \<longrightarrow>
        getTestConfig env = environmentConfigs_production"
    by (simp add: getTestConfig_def)
  show ?thesis
    by (intro conjI unset dev stg prd mem sel d1 d2 d3)
qed

theorem getTestConfig_selection_witness:
  "getTestConfig Map.empty = environmentConfigs_development
   \<and> getTestConfig [''TEST_ENV'' \<mapsto> ''staging''] = environmentConfigs_staging
   \<and> getTestConfig [''TEST_ENV'' \<mapsto> ''production''] = environmentConfigs_production
   \<and> getTestConfig [''TEST_ENV'' \<mapsto> ''production'', ''CI'' \<mapsto> ''1'']
       = getTestConfig [''TEST_ENV'' \<mapsto> ''production'']"
proof -
  note prod = getTestConfig_selection [of "[''TEST_ENV'' \<mapsto> ''production'']"]
  have a: "getTestConfig Map.empty = environmentConfigs_development"
    using getTestConfig_selection [of Map.empty, THEN conjunct1] by simp
  have b: "getTestConfig [''TEST_ENV'' \<mapsto> ''staging''] = environmentConfigs_staging"
    using getTestConfig_selection [of "[''TEST_ENV'' \<mapsto> ''staging'']",
        THEN conjunct2, THEN conjunct2, THEN conjunct1] by simp
  have c: "getTestConfig [''TEST_ENV'' \<mapsto> ''production''] = environmentConfigs_production"
    using prod [THEN conjunct2, THEN conjunct2, THEN conjunct2, THEN conjunct1] by simp
  have d: "getTestConfig [''TEST_ENV'' \<mapsto> ''production'', ''CI'' \<mapsto> ''1'']
       = getTestConfig [''TEST_ENV'' \<mapsto> ''production'']"
    using prod [THEN conjunct2, THEN conjunct2, THEN conjunct2, THEN conjunct2,
        THEN conjunct2, THEN conjunct1, THEN spec,
        of "[''TEST_ENV'' \<mapsto> ''production'', ''CI'' \<mapsto> ''1'']"] by simp
  show ?thesis
    by (intro conjI a b c d)
qed

section \<open>Running actions\<close>

lemma ret_run [simp]:
  "result (ret x w) = Inr x" "events (ret x w) = []" "after (ret x w) = w"
  by (simp_all add: ret_def)

lemma throw_run [simp]:
  "result (throw e w) = Inl e" "events (throw e w) = []" "after (throw e w) = w"
  by (simp_all add: throw_def)

lemma call_run [simp]:
  "result (call ev f w) = fst (f w)" "events (call ev f w) = [ev]" "after (call ev f w) = snd (f w)"
  by (simp_all add: call_def)

lemma wait_run [simp]:
  "result (wait D ms w) = Inr ()" "events (wait D ms w) = [EvWaitForTimeout ms]"
  "after (wait D ms w) = page_waitForTimeout D ms w"
  by (simp_all add: wait_def)

lemma bnd_run:
  "result (bnd m f w) = (case result (m w) of Inl e \<Rightarrow> Inl e | Inr x \<Rightarrow> result (f x (after (m w))))"
  "events (bnd m f w) = events (m w) @ (case result (m w) of Inl e \<Rightarrow> [] | Inr x \<Rightarrow> events (f x (after (m w))))"
  "after (bnd m f w) = (case result (m w) of Inl e \<Rightarrow> after (m w) | Inr x \<Rightarrow> after (f x (after (m w))))"
  by (simp_all add: bnd_def split: sum.split)

lemma try_catch_run:
  "result (try_catch m h w) = (case result (m w) of Inr x \<Rightarrow> Inr x | Inl e \<Rightarrow> result (h e (after (m w))))"
  "events (try_catch m h w) = events (m w) @ (case result (m w) of Inr x \<Rightarrow> [] | Inl e \<Rightarrow> events (h e (after (m w))))"
  "after (try_catch m h w) = (case result (m w) of Inr x \<Rightarrow> after (m w) | Inl e \<Rightarrow> after (h e (after (m w))))"
  by (simp_all add: try_catch_def split: sum.split)

lemma isElementVisible_run:
  "result (isElementVisible D l t w) =
     Inr (fst (locator_waitFor D l Visible (case t of None \<Rightarrow> 5000 | Some n \<Rightarrow> n) w) = Inr ())"
  "events (isElementVisible D l t w) = [EvWaitFor l Visible (case t of None \<Rightarrow> 5000 | Some n \<Rightarrow> n)]"
  "after (isElementVisible D l t w) = snd (locator_waitFor D l Visible (case t of None \<Rightarrow> 5000 | Some n \<Rightarrow> n) w)"
  by (simp_all add: isElementVisible_def Let_def bnd_run try_catch_run split: sum.split)

lemma queryCount_simps [simp]:
  "queryCount [] = 0" "queryCount (a @ b) = queryCount a + queryCount b"
  "queryCount (e # evs) = (if isQuery e then 1 else 0) + queryCount evs"
  by (simp_all add: queryCount_def)

lemma timerTotal_simps [simp]:
  "timerTotal [] = 0" "timerTotal (a @ b) = timerTotal a + timerTotal b"
  "timerTotal (e # evs) = timer e + timerTotal evs"
  by (simp_all add: timerTotal_def)

lemma scan_result: "\<exists>acc'. result (getMentorCount_scan D sels acc w) = Inr acc'"
  by (induction sels arbitrary: acc w) (auto simp: bnd_run try_catch_run split: sum.split)

lemma scan_events: "events (getMentorCount_scan D sels acc w) = map EvQueryAll sels"
  by (induction sels arbitrary: acc w) (auto simp: bnd_run try_catch_run split: sum.split)

lemma noResults_result: "\<exists>b. result (getMentorCount_noResults D sels w) = Inr b"
  by (induction sels arbitrary: w) (auto simp: bnd_run isElementVisible_run split: sum.split)

lemma noResults_counts:
  "queryCount (events (getMentorCount_noResults D sels w)) = 0"
  "timerTotal (events (getMentorCount_noResults D sels w)) = 0"
  by (induction sels arbitrary: w) (auto simp: bnd_run isElementVisible_run split: sum.split)

lemma getMentorCount_result: "\<exists>n. result (getMentorCount D w) = Inr n"
  using scan_result[of D cardSelectors "(0, [])" "page_waitForTimeout D 2000 w"]
    noResults_result[of D noResultsSelectors]
  apply (clarsimp simp: getMentorCount_def bnd_run split: sum.split prod.split)
  by (metis sum.simps(4) old.sum.exhaust)


lemma map_query_counts [simp]:
  "queryCount (map EvQueryAll sels) = length sels" "timerTotal (map EvQueryAll sels) = 0"
  by (induction sels) auto

lemma getMentorCount_counts:
  "queryCount (events (getMentorCount D w)) = length cardSelectors"
  "timerTotal (events (getMentorCount D w)) = 2000"
  by (auto simp: getMentorCount_def bnd_run scan_events noResults_counts split: sum.split prod.split)

lemma scan_fold:
  "\<forall>sel\<in>set sels. \<forall>w. fst (page_queryAll D sel w) = q sel \<Longrightarrow>
   result (getMentorCount_scan D sels acc w) = Inr (fold (scan_step q) sels acc)"
  by (induction sels arbitrary: acc w)
     (auto simp: bnd_run try_catch_run scan_step_def split: sum.split)

lemma set_found: "set (found q sels) = {n. \<exists>sel\<in>set sels. q sel = Inr n}"
  by (auto simp: found_def split: sum.splits)

lemma fold_scan_step:
  "fst (fold (scan_step q) sels acc) = fold max (found q sels) (fst acc)"
  by (induction sels arbitrary: acc) (auto simp: scan_step_def found_def max_def split: sum.split)

lemma fold_scan_step_Max:
  "fst (fold (scan_step q) sels acc) = Max (insert (fst acc) {n. \<exists>sel\<in>set sels. q sel = Inr n})"
  using Max.set_eq_fold [of "fst acc" "found q sels"]
  by (simp add: fold_scan_step set_found)

lemma getMentorCount_is_maxCount:
  "result (getMentorCount D w) =
     map_sum id fst (result (getMentorCount_scan D cardSelectors (0, []) (page_waitForTimeout D 2000 w)))"
  using scan_result[of D cardSelectors "(0, [])" "page_waitForTimeout D 2000 w"]
    noResults_result[of D noResultsSelectors]
  apply (clarsimp simp: getMentorCount_def bnd_run split: sum.split prod.split)
  by (metis sum.simps(4) old.sum.exhaust)


lemma scan_zero:
  "\<forall>sel\<in>set sels. \<forall>w n. fst (page_queryAll D sel w) = Inr n \<longrightarrow> n = 0 \<Longrightarrow>
   result (getMentorCount_scan D sels (0, ws) w) = Inr (0, ws)"
  by (induction sels arbitrary: w) (auto simp: bnd_run try_catch_run split: sum.split)

lemma noResults_first:
  "\<forall>sel\<in>set (pre @ [s]). \<forall>w. (fst (locator_waitFor D (Locator sel) Visible 5000 w) = Inr ()) = vis sel \<Longrightarrow>
   vis s \<Longrightarrow> \<forall>x\<in>set pre. \<not> vis x \<Longrightarrow>
   result (getMentorCount_noResults D (pre @ s # post) w) = Inr True
   \<and> events (getMentorCount_noResults D (pre @ s # post) w) = map (probe 5000) (pre @ [s])"
  by (induction pre arbitrary: w) (auto simp: bnd_run isElementVisible_run probe_def)

section \<open>The visibility probe\<close>

text \<open>
  C8. For every locator, timeout and browser state, \<open>isElementVisible\<close> returns a value
  and never an error: \<open>True\<close> when the driver's wait for visibility resolves, \<open>False\<close>
  whenever that wait fails, whatever the failure. It makes exactly that one driver call.
\<close>

theorem isElementVisible_never_throws:
  "result (isElementVisible D l t w)
     = Inr (\<not> isl (fst (locator_waitFor D l Visible (case t of None \<Rightarrow> 5000 | Some n \<Rightarrow> n) w)))
   \<and> events (isElementVisible D l t w) = [EvWaitFor l Visible (case t of None \<Rightarrow> 5000 | Some n \<Rightarrow> n)]"
  by (cases "fst (locator_waitFor D l Visible (case t of None \<Rightarrow> 5000 | Some n \<Rightarrow> n) w)")
     (simp_all add: isElementVisible_run)

theorem isElementVisible_never_throws_witness:
  "result (isElementVisible noResultsPage (Locator ''.empty-state'') None sim0) = Inr True
   \<and> result (isElementVisible noResultsPage (Locator ''.no-results'') (Some 2000) sim0) = Inr False"
  using isElementVisible_never_throws [of noResultsPage "Locator ''.empty-state''" None sim0]
    isElementVisible_never_throws [of noResultsPage "Locator ''.no-results''" "Some 2000" sim0]
  by (simp add: noResultsPage_def simDriver_def)

section \<open>Counting mentor cards\<close>

text \<open>
  C10. On a page where the query for each card selector has a fixed answer \<open>q selector\<close>
  (a number of matching elements, or an error), \<open>getMentorCount\<close> returns the largest
  number of elements that any of the card selectors matches (zero if there is none), not
  the count of the first selector that matches. When every selector matches zero
  elements it returns 0 without an error, whether or not a no-results indicator is
  visible.
\<close>

theorem getMentorCount_max:
  assumes "\<forall>sel\<in>set cardSelectors. \<forall>w. fst (page_queryAll D sel w) = q sel"
  shows "result (getMentorCount D w) = Inr (Max (insert 0 {n. \<exists>sel\<in>set cardSelectors. q sel = Inr n}))
    \<and> ((\<forall>sel\<in>set cardSelectors. q sel = Inr 0) \<longrightarrow> result (getMentorCount D w) = Inr 0)"
proof -
  have r: "result (getMentorCount D w) = Inr (Max (insert 0 {n. \<exists>sel\<in>set cardSelectors. q sel = Inr n}))"
    using fold_scan_step_Max [of q cardSelectors "(0, [])"]
    by (simp add: getMentorCount_is_maxCount scan_fold [OF assms])
  have "{n. \<exists>sel\<in>set cardSelectors. q sel = Inr n} = {0}" if "\<forall>sel\<in>set cardSelectors. q sel = Inr 0"
    using that by (auto simp: cardSelectors_def)
  with r show ?thesis by auto
qed

theorem getMentorCount_max_witness:
  "result (getMentorCount cardsPage sim0)
       = Inr (Max (insert 0 {n. \<exists>sel\<in>set cardSelectors.
                (Inr (if sel = ''.mentor-card'' then 3 else if sel = ''.card'' then 7 else 0)
                  :: error + nat) = Inr n}))
   \<and> result (getMentorCount cardsPage sim0) = Inr 7
   \<and> result (getMentorCount emptyPage sim0) = Inr 0"
proof -
  have h: "\<forall>sel\<in>set cardSelectors. \<forall>w. fst (page_queryAll cardsPage sel w)
        = Inr (if sel = ''.mentor-card'' then 3 else if sel = ''.card'' then 7 else 0)"
    by (simp add: cardsPage_def simDriver_def)
  have h0: "\<forall>sel\<in>set cardSelectors. \<forall>w. fst (page_queryAll emptyPage sel w) = Inr 0"
    by (simp add: emptyPage_def simDriver_def)
  have a: "result (getMentorCount cardsPage sim0)
       = Inr (Max (insert 0 {n. \<exists>sel\<in>set cardSelectors.
                (Inr (if sel = ''.mentor-card'' then 3 else if sel = ''.card'' then 7 else 0)
                  :: error + nat) = Inr n}))"
    using getMentorCount_max [OF h, of sim0] by (rule conjunct1)
  have b: "result (getMentorCount cardsPage sim0) = Inr 7"
    by (simp add: getMentorCount_def bnd_run try_catch_run isElementVisible_run
        cardsPage_def simDriver_def sim0_def cardSelectors_def noResultsSelectors_def)
  have c: "result (getMentorCount emptyPage sim0) = Inr 0"
    using getMentorCount_max [OF h0, of sim0, THEN conjunct2] by simp
  show ?thesis
    by (intro conjI a b c)
qed

text \<open>
  C7. On a page where no card selector matches any element and a no-results indicator
  is visible, \<open>getMentorCount\<close> returns 0 and does not throw. It gets there through the
  \<open>return 0\<close> of the indicator loop: after the timer and one query per card selector it
  probes the indicator selectors in order and stops at the first visible one.
\<close>

theorem getMentorCount_no_results:
  assumes zero: "\<forall>sel\<in>set cardSelectors. \<forall>w n. fst (page_queryAll D sel w) = Inr n \<longrightarrow> n = 0"
    and static: "\<forall>sel\<in>set noResultsSelectors. \<forall>w.
            (fst (locator_waitFor D (Locator sel) Visible 5000 w) = Inr ()) = vis sel"
    and shown: "\<exists>sel\<in>set noResultsSelectors. vis sel"
  shows "result (getMentorCount D w) = Inr 0
    \<and> (\<exists>pre s post. noResultsSelectors = pre @ s # post \<and> vis s \<and> (\<forall>x\<in>set pre. \<not> vis x)
         \<and> events (getMentorCount D w)
             = EvWaitForTimeout 2000 # map EvQueryAll cardSelectors @ map (probe 5000) (pre @ [s]))"
proof -
  from shown obtain pre s post where
    dec: "noResultsSelectors = pre @ s # post" "vis s" "\<forall>x\<in>set pre. \<not> vis x"
    using split_list_first_prop [OF shown] by blast
  have st: "\<forall>sel\<in>set (pre @ [s]). \<forall>w. (fst (locator_waitFor D (Locator sel) Visible 5000 w) = Inr ()) = vis sel"
    using static unfolding dec(1) by simp
  note nr = noResults_first [OF st dec(2,3), of post]
  have "result (getMentorCount D w) = Inr 0"
    by (simp add: getMentorCount_is_maxCount scan_zero [OF zero])
  moreover have "events (getMentorCount D w)
             = EvWaitForTimeout 2000 # map EvQueryAll cardSelectors @ map (probe 5000) (pre @ [s])"
    using nr by (simp add: getMentorCount_def bnd_run scan_events scan_zero [OF zero] dec(1) [symmetric])
  ultimately show ?thesis using dec by blast
qed

theorem getMentorCount_no_results_witness:
  "fst (page_queryAll noResultsPage ''.mentor-card'' sim0) = Inr 0
   \<and> (\<exists>sel\<in>set noResultsSelectors. sel = ''.empty-state'')
   \<and> result (getMentorCount noResultsPage sim0) = Inr 0"
proof -
  have zero: "\<forall>sel\<in>set cardSelectors. \<forall>w n.
      fst (page_queryAll noResultsPage sel w) = Inr n \<longrightarrow> n = 0"
    by (simp add: noResultsPage_def simDriver_def)
  have static: "\<forall>sel\<in>set noResultsSelectors. \<forall>w.
      (fst (locator_waitFor noResultsPage (Locator sel) Visible 5000 w) = Inr ())
        = (sel = ''.empty-state'')"
    by (simp add: noResultsPage_def simDriver_def)
  have shown: "\<exists>sel\<in>set noResultsSelectors. sel = ''.empty-state''"
    by (simp add: noResultsSelectors_def)
  have "result (getMentorCount noResultsPage sim0) = Inr 0"
    using getMentorCount_no_results [OF zero static shown, of sim0] by (rule conjunct1)
  moreover have "fst (page_queryAll noResultsPage ''.mentor-card'' sim0) = Inr 0"
    by (simp add: noResultsPage_def simDriver_def)
  ultimately show ?thesis
    using shown by (intro conjI)
qed

section \<open>Strings\<close>

lemma trim_blank:
  assumes "\<forall>c\<in>set s. isWhiteSpace c"
  shows "trim s = []"
proof -
  have h: "dropWhile isWhiteSpace s = []"
    using assms by (induction s) auto
  show ?thesis
    unfolding trim_def h by simp
qed

lemma trim_empty_iff: "trim s = [] \<longleftrightarrow> (\<forall>c\<in>set s. isWhiteSpace c)"
proof
  assume "\<forall>c\<in>set s. isWhiteSpace c"
  then show "trim s = []" by (rule trim_blank)
next
  assume t: "trim s = []"
  show "\<forall>c\<in>set s. isWhiteSpace c"
  proof (rule ccontr)
    assume "\<not> (\<forall>c\<in>set s. isWhiteSpace c)"
    then have ne: "dropWhile isWhiteSpace s \<noteq> []"
      by (simp add: dropWhile_eq_Nil_conv)
    then have "\<not> isWhiteSpace (hd (dropWhile isWhiteSpace s))"
      by (rule hd_dropWhile)
    moreover have "hd (dropWhile isWhiteSpace s) \<in> set (rev (dropWhile isWhiteSpace s))"
      using ne by simp
    ultimately have "dropWhile isWhiteSpace (rev (dropWhile isWhiteSpace s)) \<noteq> []"
      by (auto simp: dropWhile_eq_Nil_conv)
    with t show False by (simp add: trim_def)
  qed
qed

lemma startsWith_iff: "startsWith s p \<longleftrightarrow> (\<exists>r. s = p @ r)"
  by (induction s p rule: startsWith.induct) auto

lemma str_includes_iff: "str_includes s sub \<longleftrightarrow> (\<exists>p r. s = p @ sub @ r)"
proof (induction s)
  case Nil
  then show ?case by auto
next
  case (Cons c s)
  show ?case
  proof
    assume "str_includes (c # s) sub"
    then consider "startsWith (c # s) sub" | "str_includes s sub" by auto
    then show "\<exists>p r. c # s = p @ sub @ r"
    proof cases
      case 1
      then obtain r where "c # s = sub @ r" by (auto simp: startsWith_iff)
      then have "c # s = [] @ sub @ r" by simp
      then show ?thesis by blast
    next
      case 2
      with Cons obtain p r where "s = p @ sub @ r" by blast
      then have "c # s = (c # p) @ sub @ r" by simp
      then show ?thesis by blast
    qed
  next
    assume "\<exists>p r. c # s = p @ sub @ r"
    then obtain p r where eq: "c # s = p @ sub @ r" by blast
    show "str_includes (c # s) sub"
    proof (cases p)
      case Nil
      with eq have "startsWith (c # s) sub" by (simp only: startsWith_iff) auto
      then show ?thesis by simp
    next
      case (Cons a p')
      with eq have "s = p' @ sub @ r" by simp
      with Cons.IH show ?thesis by auto
    qed
  qed
qed

lemma toLowerCase_append: "toLowerCase (a @ b) = toLowerCase a @ toLowerCase b"
  by (simp add: toLowerCase_def)

section \<open>Base page methods\<close>

lemma waitForElement_run:
  "result (waitForElement D l t w) =
     (case fst (locator_waitFor D l Visible (case t of None \<Rightarrow> 30000 | Some n \<Rightarrow> n) w) of
        Inr u \<Rightarrow> Inr ()
      | Inl e \<Rightarrow> Inl (Error (''Element not found within ''
            @ string_of_nat (case t of None \<Rightarrow> 30000 | Some n \<Rightarrow> n) @ ''ms: '' @ locator_toString D l)))"
  "events (waitForElement D l t w) = [EvWaitFor l Visible (case t of None \<Rightarrow> 30000 | Some n \<Rightarrow> n)]"
  "after (waitForElement D l t w) = snd (locator_waitFor D l Visible (case t of None \<Rightarrow> 30000 | Some n \<Rightarrow> n) w)"
  by (simp_all add: waitForElement_def Let_def try_catch_run split: sum.split)

lemma getPageTitle_run:
  "result (getPageTitle D w) =
     (case fst (page_title D w) of Inr t \<Rightarrow> Inr t
      | Inl e \<Rightarrow> Inl (Error (''Failed to get page title: '' @ error_toString e)))"
  "events (getPageTitle D w) = [EvTitle]"
  "after (getPageTitle D w) = snd (page_title D w)"
  by (simp_all add: getPageTitle_def try_catch_run split: sum.split)

lemma verifyCurrentUrl_events: "events (verifyCurrentUrl D path w) = [EvUrl]"
  by (simp add: verifyCurrentUrl_def bnd_run getCurrentUrl_def)

section \<open>The keyword guard of searchMentors\<close>

text \<open>
  C4. For every keyword that is empty or consists only of white space, \<open>searchMentors\<close>
  throws the error \<open>Search keyword cannot be empty\<close> without any driver call: no event is
  recorded and the browser state is unchanged. White space is what \<open>trim\<close> removes, the
  no-break space included, and these keywords are exactly the ones the guard
  \<open>!keyword || keyword.trim().length === 0\<close> rejects.
\<close>

theorem searchMentors_empty_keyword:
  "((\<forall>c\<in>set keyword. isWhiteSpace c) \<longrightarrow>
     searchMentors D keyword w
       = \<lparr> result = Inl (Error ''Search keyword cannot be empty''), events = [], after = w \<rparr>)
   \<and> ((\<forall>c\<in>set keyword. isWhiteSpace c) \<longleftrightarrow> keyword = [] \<or> length (trim keyword) = 0)"
proof (intro conjI impI)
  assume "\<forall>c\<in>set keyword. isWhiteSpace c"
  then show "searchMentors D keyword w
       = \<lparr> result = Inl (Error ''Search keyword cannot be empty''), events = [], after = w \<rparr>"
    by (simp add: searchMentors_def trim_blank throw_def)
next
  show "(\<forall>c\<in>set keyword. isWhiteSpace c) \<longleftrightarrow> keyword = [] \<or> length (trim keyword) = 0"
    using trim_empty_iff [of keyword] by auto
qed

theorem searchMentors_empty_keyword_witness:
  "searchMentors emptyPage [] sim0
     = \<lparr> result = Inl (Error ''Search keyword cannot be empty''), events = [], after = sim0 \<rparr>
   \<and> searchMentors emptyPage [CHR '' '', CHR 0x09, CHR '' ''] sim0
     = \<lparr> result = Inl (Error ''Search keyword cannot be empty''), events = [], after = sim0 \<rparr>
   \<and> searchMentors emptyPage [CHR 0xA0] sim0
     = \<lparr> result = Inl (Error ''Search keyword cannot be empty''), events = [], after = sim0 \<rparr>
   \<and> searchMentors emptyPage [CHR 0x0A, CHR 0xA0, CHR 0x0B, CHR 0x0C, CHR 0x0D] sim0
     = \<lparr> result = Inl (Error ''Search keyword cannot be empty''), events = [], after = sim0 \<rparr>"
  using searchMentors_empty_keyword [of "[]" emptyPage sim0, THEN conjunct1]
    searchMentors_empty_keyword [of "[CHR '' '', CHR 0x09, CHR '' '']" emptyPage sim0, THEN conjunct1]
    searchMentors_empty_keyword [of "[CHR 0xA0]" emptyPage sim0, THEN conjunct1]
    searchMentors_empty_keyword [of "[CHR 0x0A, CHR 0xA0, CHR 0x0B, CHR 0x0C, CHR 0x0D]" emptyPage sim0,
      THEN conjunct1]
  by (simp add: isWhiteSpace_def)

section \<open>Typing with read-back\<close>

lemma typeText_body_outcome:
  fixes c :: "(unit, 'w) action"
  assumes T: \<open>T = try_catch
       (bnd (waitForElement D l None) (\<lambda>_.
        bnd c (\<lambda>_.
        bnd (call (EvFill l txt 10000) (locator_fill D l txt 10000)) (\<lambda>_.
        bnd (call (EvInputValue l) (locator_inputValue D l)) (\<lambda>inputValue.
          if inputValue \<noteq> txt
          then throw (Error (''Text verification failed. Expected: "'' @ txt
                               @ ''", Actual: "'' @ inputValue @ ''"''))
          else ret ())))))
       (\<lambda>error. throw (Error (''Failed to type text "'' @ txt @ ''" into ''
                                @ locator_toString D l @ '': '' @ error_toString error))) w\<close>
    and c: "\<And>w'. EvInputValue l \<notin> set (events (c w'))"
  shows \<open>(isl (result T) \<and> EvInputValue l \<notin> set (events T))
   \<or> (\<exists>wr pre. events T = pre @ [EvFill l txt 10000, EvInputValue l]
          \<and> after T = snd (locator_inputValue D l wr)
          \<and> result T
              = (case fst (locator_inputValue D l wr) of
                   Inr v \<Rightarrow>
                     if v = txt then Inr ()
                     else Inl (Error (''Failed to type text "'' @ txt @ ''" into '' @ locator_toString D l
                        @ '': Error: Text verification failed. Expected: "'' @ txt
                        @ ''", Actual: "'' @ v @ ''"''))
                 | Inl e \<Rightarrow>
                     Inl (Error (''Failed to type text "'' @ txt @ ''" into '' @ locator_toString D l
                        @ '': '' @ error_toString e))))\<close>
  (is "?failed \<or> ?reached")
proof -
  let ?t1 = "locator_waitFor D l Visible 30000 w"
  let ?o2 = "c (snd ?t1)"
  let ?t3 = "locator_fill D l txt 10000 (after ?o2)"
  note defs = T bnd_run try_catch_run waitForElement_run
  show ?thesis
  proof (cases "fst ?t1")
    case (Inl e)
    then have ?failed by (simp add: defs)
    then show ?thesis ..
  next
    case r1: (Inr u1)
    show ?thesis
    proof (cases "result ?o2")
      case (Inl e)
      with r1 c have ?failed by (simp add: defs)
      then show ?thesis ..
    next
      case r2: (Inr u2)
      show ?thesis
      proof (cases "fst ?t3")
        case (Inl e)
        with r1 r2 c have ?failed by (simp add: defs)
        then show ?thesis ..
      next
        case r3: (Inr u3)
        have "events T = (EvWaitFor l Visible 30000 # events ?o2) @ [EvFill l txt 10000, EvInputValue l]"
          using r1 r2 r3 by (simp add: defs split: sum.split)
        moreover have "after T = snd (locator_inputValue D l (snd ?t3))"
          using r1 r2 r3 by (simp add: defs split: sum.split)
        moreover have \<open>result T
              = (case fst (locator_inputValue D l (snd ?t3)) of
                   Inr v \<Rightarrow>
                     if v = txt then Inr ()
                     else Inl (Error (''Failed to type text "'' @ txt @ ''" into '' @ locator_toString D l
                        @ '': Error: Text verification failed. Expected: "'' @ txt
                        @ ''", Actual: "'' @ v @ ''"''))
                 | Inl e \<Rightarrow>
                     Inl (Error (''Failed to type text "'' @ txt @ ''" into '' @ locator_toString D l
                        @ '': '' @ error_toString e)))\<close>
          using r1 r2 r3 by (simp add: defs error_toString_def split: sum.split)
        ultimately have ?reached by blast
        then show ?thesis ..
      qed
    qed
  qed
qed

lemma typeText_outcome:
  \<open>(isl (result (typeText D l txt opts w)) \<and> EvInputValue l \<notin> set (events (typeText D l txt opts w)))
   \<or> (\<exists>wr pre. events (typeText D l txt opts w) = pre @ [EvFill l txt 10000, EvInputValue l]
          \<and> after (typeText D l txt opts w) = snd (locator_inputValue D l wr)
          \<and> result (typeText D l txt opts w)
              = (case fst (locator_inputValue D l wr) of
                   Inr v \<Rightarrow>
                     if v = txt then Inr ()
                     else Inl (Error (''Failed to type text "'' @ txt @ ''" into '' @ locator_toString D l
                        @ '': Error: Text verification failed. Expected: "'' @ txt
                        @ ''", Actual: "'' @ v @ ''"''))
                 | Inl e \<Rightarrow>
                     Inl (Error (''Failed to type text "'' @ txt @ ''" into '' @ locator_toString D l
                        @ '': '' @ error_toString e))))\<close>
proof (rule typeText_body_outcome [where c = "if (case opts of None \<Rightarrow> None | Some x \<Rightarrow> opt_clear x) \<noteq> Some False
              then call (EvClear l) (locator_clear D l) else ret ()"])
  show "EvInputValue l \<notin> set (events ((if (case opts of None \<Rightarrow> None | Some x \<Rightarrow> opt_clear x) \<noteq> Some False
              then call (EvClear l) (locator_clear D l) else ret ()) w'))" for w'
    by simp
qed (simp only: typeText_def)

text \<open>
  C5. \<open>typeText\<close> returns successfully only if its last two driver calls were the fill
  and then the read-back of the field, and the read-back gave exactly the text typed;
  nothing touches the browser between that read-back and the return. Whenever the read-back is reached, its
  value decides the outcome: equal to the text means success, any other value means the
  error \<open>Failed to type text ... Text verification failed\<close> naming both values, and a
  read-back that throws is reported as a failure too.
\<close>

theorem typeText_verified:
  \<open>(result (typeText D l txt opts w) = Inr () \<longrightarrow>
       (\<exists>pre. events (typeText D l txt opts w) = pre @ [EvFill l txt 10000, EvInputValue l])
       \<and> (\<exists>wr. locator_inputValue D l wr = (Inr txt, after (typeText D l txt opts w))))
   \<and> (EvInputValue l \<in> set (events (typeText D l txt opts w)) \<longrightarrow>
       (\<exists>wr. after (typeText D l txt opts w) = snd (locator_inputValue D l wr)
          \<and> result (typeText D l txt opts w)
              = (case fst (locator_inputValue D l wr) of
                   Inr v \<Rightarrow>
                     if v = txt then Inr ()
                     else Inl (Error (''Failed to type text "'' @ txt @ ''" into '' @ locator_toString D l
                        @ '': Error: Text verification failed. Expected: "'' @ txt
                        @ ''", Actual: "'' @ v @ ''"''))
                 | Inl e \<Rightarrow>
                     Inl (Error (''Failed to type text "'' @ txt @ ''" into '' @ locator_toString D l
                        @ '': '' @ error_toString e)))))\<close>
proof (intro conjI impI)
  assume ok: "result (typeText D l txt opts w) = Inr ()"
  then have "\<not> isl (result (typeText D l txt opts w))" by simp
  with typeText_outcome [of D l "txt" opts w]
  obtain wr pre where wr: "events (typeText D l txt opts w) = pre @ [EvFill l txt 10000, EvInputValue l]"
    "after (typeText D l txt opts w) = snd (locator_inputValue D l wr)"
    and res: \<open>result (typeText D l txt opts w)
              = (case fst (locator_inputValue D l wr) of
                   Inr v \<Rightarrow>
                     if v = txt then Inr ()
                     else Inl (Error (''Failed to type text "'' @ txt @ ''" into '' @ locator_toString D l
                        @ '': Error: Text verification failed. Expected: "'' @ txt
                        @ ''", Actual: "'' @ v @ ''"''))
                 | Inl e \<Rightarrow>
                     Inl (Error (''Failed to type text "'' @ txt @ ''" into '' @ locator_toString D l
                        @ '': '' @ error_toString e)))\<close>
    by blast
  have rb: "fst (locator_inputValue D l wr) = Inr txt"
    using ok res by (cases "fst (locator_inputValue D l wr)") (auto split: if_splits)
  from wr(1) show "\<exists>pre. events (typeText D l txt opts w) = pre @ [EvFill l txt 10000, EvInputValue l]" ..
  have "locator_inputValue D l wr = (Inr txt, after (typeText D l txt opts w))"
    using wr(2) rb by (simp add: prod_eq_iff)
  then show "\<exists>wr. locator_inputValue D l wr = (Inr txt, after (typeText D l txt opts w))" ..
next
  assume "EvInputValue l \<in> set (events (typeText D l txt opts w))"
  then show \<open>\<exists>wr. after (typeText D l txt opts w) = snd (locator_inputValue D l wr)
          \<and> result (typeText D l txt opts w)
              = (case fst (locator_inputValue D l wr) of
                   Inr v \<Rightarrow>
                     if v = txt then Inr ()
                     else Inl (Error (''Failed to type text "'' @ txt @ ''" into '' @ locator_toString D l
                        @ '': Error: Text verification failed. Expected: "'' @ txt
                        @ ''", Actual: "'' @ v @ ''"''))
                 | Inl e \<Rightarrow>
                     Inl (Error (''Failed to type text "'' @ txt @ ''" into '' @ locator_toString D l
                        @ '': '' @ error_toString e)))\<close>
    using typeText_outcome [of D l "txt" opts w] by blast
qed

theorem typeText_verified_witness:
  \<open>result (typeText searchPage (Locator ''.search-input'') ''Engineer'' None sim0) = Inr ()
   \<and> (\<exists>pre. events (typeText searchPage (Locator ''.search-input'') ''Engineer'' None sim0)
         = pre @ [EvFill (Locator ''.search-input'') ''Engineer'' 10000,
                  EvInputValue (Locator ''.search-input'')])
   \<and> EvInputValue (Locator ''.search-input'')
       \<in> set (events (typeText maskedPage (Locator ''.search-input'') ''Engineer'' None sim0))
   \<and> result (typeText maskedPage (Locator ''.search-input'') ''Engineer'' None sim0)
       = Inl (Error (''Failed to type text "Engineer" into .search-input: ''
            @ ''Error: Text verification failed. Expected: "Engineer", Actual: "Eng"''))\<close>
proof -
  note run = typeText_def bnd_run try_catch_run waitForElement_run simDriver_def sim0_def
  have ok: "result (typeText searchPage (Locator ''.search-input'') ''Engineer'' None sim0) = Inr ()"
    by (simp add: run searchPage_def)
  have lst: "\<exists>pre. events (typeText searchPage (Locator ''.search-input'') ''Engineer'' None sim0)
         = pre @ [EvFill (Locator ''.search-input'') ''Engineer'' 10000,
                  EvInputValue (Locator ''.search-input'')]"
    using typeText_verified [of searchPage "Locator ''.search-input''" "''Engineer''" None sim0] ok
    by blast
  have reached: "EvInputValue (Locator ''.search-input'')
       \<in> set (events (typeText maskedPage (Locator ''.search-input'') ''Engineer'' None sim0))"
    by (simp add: run maskedPage_def)
  have bad: \<open>result (typeText maskedPage (Locator ''.search-input'') ''Engineer'' None sim0)
       = Inl (Error (''Failed to type text "Engineer" into .search-input: ''
            @ ''Error: Text verification failed. Expected: "Engineer", Actual: "Eng"''))\<close>
    by (simp add: run maskedPage_def error_toString_def)
  show ?thesis
    by (intro conjI ok lst reached bad)
qed

section \<open>The title check of verifyPageLoaded\<close>

text \<open>
  C6. Once the page heading is visible and the title has been read, the title check of
  \<open>verifyPageLoaded\<close> passes for every title that contains \<open>mentor\<close> in any mix of upper
  and lower case: the method goes on to its next step, the check of the URL. For the
  title \<open>404 Not Found\<close> it stops there with the error \<open>Page title does not indicate
  mentoring page\<close>, after the heading wait and the title read and nothing else.
\<close>

theorem verifyPageLoaded_title_check:
  assumes heading: "fst (locator_waitFor D pageTitle Visible 20000 w) = Inr ()"
    and title: "fst (page_title D (snd (locator_waitFor D pageTitle Visible 20000 w))) = Inr title"
  shows \<open>((\<exists>p u r. title = p @ u @ r \<and> toLowerCase u = ''mentor'') \<longrightarrow>
           (\<exists>rest. events (verifyPageLoaded D w)
                      = [EvWaitFor pageTitle Visible 20000, EvTitle, EvUrl] @ rest))
         \<and> (title = ''404 Not Found'' \<longrightarrow>
              result (verifyPageLoaded D w)
                = Inl (Error ''Page title does not indicate mentoring page. Actual title: "404 Not Found"'')
              \<and> events (verifyPageLoaded D w) = [EvWaitFor pageTitle Visible 20000, EvTitle])\<close>
proof (intro conjI impI)
  assume "\<exists>p u r. title = p @ u @ r \<and> toLowerCase u = ''mentor''"
  then obtain p u r where "title = p @ u @ r" "toLowerCase u = ''mentor''" by blast
  then have "toLowerCase title = toLowerCase p @ ''mentor'' @ toLowerCase r"
    by (simp add: toLowerCase_append)
  then have inc: "str_includes (toLowerCase title) ''mentor''"
    unfolding str_includes_iff by blast
  show "\<exists>rest. events (verifyPageLoaded D w)
                      = [EvWaitFor pageTitle Visible 20000, EvTitle, EvUrl] @ rest"
    using heading title inc
    by (simp add: verifyPageLoaded_def bnd_run [where m = "waitForElement D pageTitle (Some 20000)"]
        bnd_run [where m = "getPageTitle D"] bnd_run [where m = "verifyCurrentUrl D ''/mentoring''"]
        waitForElement_run getPageTitle_run verifyCurrentUrl_events Let_def)
next
  assume t: "title = ''404 Not Found''"
  have low: "toLowerCase ''404 Not Found'' = ''404 not found''"
    by (simp add: toLowerCase_def toLowerCase_char_def)
  show "result (verifyPageLoaded D w)
                = Inl (Error ''Page title does not indicate mentoring page. Actual title: \"404 Not Found\"'')"
    using heading title t
    by (simp add: verifyPageLoaded_def bnd_run [where m = "waitForElement D pageTitle (Some 20000)"]
        bnd_run [where m = "getPageTitle D"]
        waitForElement_run getPageTitle_run Let_def low)
  show "events (verifyPageLoaded D w) = [EvWaitFor pageTitle Visible 20000, EvTitle]"
    using heading title t
    by (simp add: verifyPageLoaded_def bnd_run [where m = "waitForElement D pageTitle (Some 20000)"]
        bnd_run [where m = "getPageTitle D"]
        waitForElement_run getPageTitle_run Let_def low)
qed

theorem verifyPageLoaded_title_check_witness:
  \<open>(\<exists>rest. events (verifyPageLoaded mentorPage sim0)
              = [EvWaitFor pageTitle Visible 20000, EvTitle, EvUrl] @ rest)
   \<and> result (verifyPageLoaded notFoundPage sim0)
       = Inl (Error ''Page title does not indicate mentoring page. Actual title: "404 Not Found"'')
   \<and> events (verifyPageLoaded notFoundPage sim0) = [EvWaitFor pageTitle Visible 20000, EvTitle]\<close>
proof -
  have h1: "fst (locator_waitFor mentorPage pageTitle Visible 20000 sim0) = Inr ()"
    by (simp add: mentorPage_def simDriver_def)
  have t1: "fst (page_title mentorPage (snd (locator_waitFor mentorPage pageTitle Visible 20000 sim0)))
      = Inr ''Cari Mentor | Dealls''"
    by (simp add: mentorPage_def simDriver_def)
  have "''Cari Mentor | Dealls'' = ''Cari '' @ ''Mentor'' @ '' | Dealls''
      \<and> toLowerCase ''Mentor'' = ''mentor''"
    by (simp add: toLowerCase_def toLowerCase_char_def)
  then have m: "\<exists>p u r. ''Cari Mentor | Dealls'' = p @ u @ r \<and> toLowerCase u = ''mentor''"
    by blast
  have a: "\<exists>rest. events (verifyPageLoaded mentorPage sim0)
              = [EvWaitFor pageTitle Visible 20000, EvTitle, EvUrl] @ rest"
    using verifyPageLoaded_title_check [OF h1 t1] m by blast
  have h2: "fst (locator_waitFor notFoundPage pageTitle Visible 20000 sim0) = Inr ()"
    by (simp add: notFoundPage_def simDriver_def)
  have t2: "fst (page_title notFoundPage (snd (locator_waitFor notFoundPage pageTitle Visible 20000 sim0)))
      = Inr ''404 Not Found''"
    by (simp add: notFoundPage_def simDriver_def)
  note b = verifyPageLoaded_title_check [OF h2 t2, THEN conjunct2, THEN mp, OF refl]
  show ?thesis
    by (intro conjI a b [THEN conjunct1] b [THEN conjunct2])
qed

section \<open>Stabilization of the search results\<close>

lemma loading_result: "result (waitForSearchResults_loading D sels w) = Inr ()"
  by (induction sels arbitrary: w) (auto simp: bnd_run try_catch_run isElementVisible_run split: sum.split)

lemma loading_counts:
  "queryCount (events (waitForSearchResults_loading D sels w)) = 0"
  "timerTotal (events (waitForSearchResults_loading D sels w)) = 0"
  by (induction sels arbitrary: w) (auto simp: bnd_run try_catch_run isElementVisible_run split: sum.split)

text \<open>
  C2, as the code has it. \<open>waitForSearchResults\<close> drains the loading indicators, waits,
  takes a first count, waits the settle delay and takes a second count. If the two counts
  are equal nothing more happens; if they differ it requests one more timer of the settle
  delay and returns. No third count is taken in either case: each count makes one query
  per card selector, and the whole run makes exactly twice that many queries.
\<close>

theorem waitForSearchResults_no_resample:
  "(let o0 = bnd (waitForSearchResults_loading D loadingSelectors) (\<lambda>_. wait D 3000) w;
        o1 = getMentorCount D (after o0);
        o2 = getMentorCount D (page_waitForTimeout D settleDelay (after o1))
    in events (waitForSearchResults D w)
         = events o0 @ events o1 @ [EvWaitForTimeout settleDelay] @ events o2
           @ (if result o1 = result o2 then [] else [EvWaitForTimeout settleDelay])
       \<and> queryCount (events o1) = length cardSelectors
       \<and> queryCount (events o2) = length cardSelectors
       \<and> queryCount (events (waitForSearchResults D w)) = 2 * length cardSelectors)"
proof -
  let ?o0 = "waitForSearchResults_loading D loadingSelectors w"
  let ?w1 = "page_waitForTimeout D 3000 (after ?o0)"
  let ?o1 = "getMentorCount D ?w1"
  let ?w2 = "page_waitForTimeout D 2000 (after ?o1)"
  let ?o2 = "getMentorCount D ?w2"
  from getMentorCount_result [of D ?w1] obtain b where b: "result ?o1 = Inr b" ..
  from getMentorCount_result [of D ?w2] obtain a where a: "result ?o2 = Inr a" ..
  note facts = waitForSearchResults_def bnd_run loading_result loading_counts getMentorCount_counts
    settleDelay_def
  show ?thesis
    using a b by (simp add: facts Let_def)
qed

theorem waitForSearchResults_no_resample_witness:
  "queryCount (events (waitForSearchResults growingPage sim0)) = 24
   \<and> queryCount (events (waitForSearchResults emptyPage sim0)) = 24"
proof -
  have a: "queryCount (events (waitForSearchResults growingPage sim0)) = 2 * length cardSelectors"
    using waitForSearchResults_no_resample [of growingPage sim0, unfolded Let_def] by blast
  have b: "queryCount (events (waitForSearchResults emptyPage sim0)) = 2 * length cardSelectors"
    using waitForSearchResults_no_resample [of emptyPage sim0, unfolded Let_def] by blast
  from a b show ?thesis
    by (simp add: cardSelectors_def)
qed

text \<open>
  C2 as stated fails. On the growing page the first count, taken from time 3000, is 5 and
  the second, taken from time 7000, is 9. The counts differ, and still the run makes only
  the 24 queries of two counts: after the second count comes a single timer and the
  method returns at time 11000.
\<close>

theorem waitForSearchResults_resample_counterexample:
  "events (waitForSearchResults growingPage sim0)
     = map (probe 2000) loadingSelectors
       @ [EvWaitForTimeout 3000, EvWaitForTimeout 2000] @ map EvQueryAll cardSelectors
       @ [EvWaitForTimeout 2000, EvWaitForTimeout 2000] @ map EvQueryAll cardSelectors
       @ [EvWaitForTimeout 2000]
   \<and> result (getMentorCount growingPage \<lparr> clock = 3000, field = [] \<rparr>) = Inr 5
   \<and> after (getMentorCount growingPage \<lparr> clock = 3000, field = [] \<rparr>) = \<lparr> clock = 5000, field = [] \<rparr>
   \<and> result (getMentorCount growingPage \<lparr> clock = 7000, field = [] \<rparr>) = Inr 9
   \<and> after (waitForSearchResults growingPage sim0) = \<lparr> clock = 11000, field = [] \<rparr>
   \<and> queryCount (events (waitForSearchResults growingPage sim0)) = 24
   \<and> \<not> 3 * length cardSelectors \<le> queryCount (events (waitForSearchResults growingPage sim0))"
proof -
  note run = waitForSearchResults_def getMentorCount_def bnd_run try_catch_run isElementVisible_run
    growingPage_def simDriver_def sim0_def cardSelectors_def noResultsSelectors_def
    loadingSelectors_def probe_def
  have e: "events (waitForSearchResults growingPage sim0)
     = map (probe 2000) loadingSelectors
       @ [EvWaitForTimeout 3000, EvWaitForTimeout 2000] @ map EvQueryAll cardSelectors
       @ [EvWaitForTimeout 2000, EvWaitForTimeout 2000] @ map EvQueryAll cardSelectors
       @ [EvWaitForTimeout 2000]"
    by (simp add: run)
  have r1: "result (getMentorCount growingPage \<lparr> clock = 3000, field = [] \<rparr>) = Inr 5"
    by (simp add: run)
  have a1: "after (getMentorCount growingPage \<lparr> clock = 3000, field = [] \<rparr>)
      = \<lparr> clock = 5000, field = [] \<rparr>"
    by (simp add: run)
  have r2: "result (getMentorCount growingPage \<lparr> clock = 7000, field = [] \<rparr>) = Inr 9"
    by (simp add: run)
  have a2: "after (waitForSearchResults growingPage sim0) = \<lparr> clock = 11000, field = [] \<rparr>"
    by (simp add: run)
  have q: "queryCount (events (waitForSearchResults growingPage sim0)) = 24"
    unfolding e by (simp add: cardSelectors_def loadingSelectors_def probe_def)
  have n: "\<not> 3 * length cardSelectors \<le> queryCount (events (waitForSearchResults growingPage sim0))"
    unfolding q by (simp add: cardSelectors_def)
  show ?thesis
    by (intro conjI e r1 a1 r2 a2 q n)
qed

text \<open>
  C3, as the code has it. Every run of \<open>waitForSearchResults\<close> returns and takes exactly
  two counts (twice one query per card selector, none while the loading indicators are
  drained). The timers it requests do not depend on how long the count keeps changing:
  3000 ms before the first count, 2000 ms inside each of the two counts, and the settle
  delay once when the two counts agree and twice when they differ. The total is
  therefore 9000 ms when they agree and 11000 ms when they differ, and never more than
  11000 ms.
\<close>

theorem waitForSearchResults_two_samples:
  "(let o0 = bnd (waitForSearchResults_loading D loadingSelectors) (\<lambda>_. wait D 3000) w;
        o1 = getMentorCount D (after o0);
        o2 = getMentorCount D (page_waitForTimeout D settleDelay (after o1))
    in result (waitForSearchResults D w) = Inr ()
       \<and> queryCount (events (waitForSearchResults D w)) = 2 * length cardSelectors
       \<and> queryCount (events o0) = 0
       \<and> queryCount (events o1) = length cardSelectors
       \<and> queryCount (events o2) = length cardSelectors
       \<and> timerTotal (events o0) = 3000
       \<and> timerTotal (events o1) = 2000
       \<and> timerTotal (events o2) = 2000
       \<and> timerTotal (events (waitForSearchResults D w))
           = 3000 + 2 * 2000 + (if result o1 = result o2 then settleDelay else 2 * settleDelay)
       \<and> timerTotal (events (waitForSearchResults D w)) \<le> 3000 + 2 * 2000 + 2 * settleDelay)"
proof -
  let ?o0 = "waitForSearchResults_loading D loadingSelectors w"
  let ?w1 = "page_waitForTimeout D 3000 (after ?o0)"
  let ?o1 = "getMentorCount D ?w1"
  let ?w2 = "page_waitForTimeout D 2000 (after ?o1)"
  let ?o2 = "getMentorCount D ?w2"
  from getMentorCount_result [of D ?w1] obtain b where b: "result ?o1 = Inr b" ..
  from getMentorCount_result [of D ?w2] obtain a where a: "result ?o2 = Inr a" ..
  note facts = waitForSearchResults_def bnd_run loading_result loading_counts getMentorCount_counts
    settleDelay_def
  show ?thesis
    using a b by (simp add: facts Let_def)
qed

theorem waitForSearchResults_two_samples_witness:
  "result (waitForSearchResults growingPage sim0) = Inr ()
   \<and> queryCount (events (waitForSearchResults growingPage sim0)) = 24
   \<and> timerTotal (events (waitForSearchResults growingPage sim0)) = 11000
   \<and> timerTotal (events (waitForSearchResults emptyPage sim0)) = 9000"
proof -
  note run = getMentorCount_def bnd_run try_catch_run isElementVisible_run
    simDriver_def sim0_def cardSelectors_def noResultsSelectors_def loadingSelectors_def
    settleDelay_def
  note g = waitForSearchResults_two_samples [of growingPage sim0, unfolded Let_def]
  note e = waitForSearchResults_two_samples [of emptyPage sim0, unfolded Let_def]
  have r: "result (waitForSearchResults growingPage sim0) = Inr ()"
    using g by blast
  have q: "queryCount (events (waitForSearchResults growingPage sim0)) = 24"
    using g [THEN conjunct2, THEN conjunct1] by (simp add: cardSelectors_def)
  have tg: "timerTotal (events (waitForSearchResults growingPage sim0)) = 11000"
    using g [THEN conjunct2, THEN conjunct2, THEN conjunct2, THEN conjunct2, THEN conjunct2,
        THEN conjunct2, THEN conjunct2, THEN conjunct2, THEN conjunct1]
    by (simp add: run growingPage_def)
  have te: "timerTotal (events (waitForSearchResults emptyPage sim0)) = 9000"
    using e [THEN conjunct2, THEN conjunct2, THEN conjunct2, THEN conjunct2, THEN conjunct2,
        THEN conjunct2, THEN conjunct2, THEN conjunct2, THEN conjunct1]
    by (simp add: run emptyPage_def)
  show ?thesis
    by (intro conjI r q tg te)
qed

text \<open>
  C3 as stated fails in its time bound. On the empty page, where both counts are 0, the
  timers requested add up to 9000 ms, and to 6000 ms without the initial wait; twice the
  settle delay is 4000 ms. The run cannot take less time than the timers it waits for.
\<close>

theorem waitForSearchResults_time_counterexample:
  "timerTotal (events (waitForSearchResults emptyPage sim0)) = 9000
   \<and> clock (after (waitForSearchResults emptyPage sim0)) = 9000
   \<and> \<not> timerTotal (events (waitForSearchResults emptyPage sim0)) \<le> 2 * settleDelay
   \<and> \<not> timerTotal (events (waitForSearchResults emptyPage sim0)) - 3000 \<le> 2 * settleDelay"
proof -
  note run = waitForSearchResults_def getMentorCount_def bnd_run try_catch_run isElementVisible_run
    emptyPage_def simDriver_def sim0_def cardSelectors_def noResultsSelectors_def
    loadingSelectors_def
  have t: "timerTotal (events (waitForSearchResults emptyPage sim0)) = 9000"
    by (simp add: run)
  have c: "clock (after (waitForSearchResults emptyPage sim0)) = 9000"
    by (simp add: run)
  show ?thesis
    unfolding t c by (simp add: settleDelay_def)
qed

section \<open>Resolving the search input\<close>

lemma findInput_first:
  "\<forall>sel\<in>set (pre @ [s]). \<forall>w. (fst (locator_waitFor D (Locator sel) Visible 2000 w) = Inr ()) = vis sel \<Longrightarrow>
   vis s \<Longrightarrow> \<forall>x\<in>set pre. \<not> vis x \<Longrightarrow>
   result (searchMentors_findInput D (pre @ s # post) w) = Inr (Some (Locator s), s)
   \<and> events (searchMentors_findInput D (pre @ s # post) w) = map (probe 2000) (pre @ [s])"
  by (induction pre arbitrary: w) (auto simp: bnd_run isElementVisible_run probe_def)

lemma nofill_clickElement: "e \<in> set (events (clickElement D l opts w)) \<Longrightarrow> \<not> isFill e"
  by (auto simp: clickElement_def Let_def bnd_run try_catch_run waitForElement_run split: sum.splits)

lemma nofill_submit: "e \<in> set (events (searchMentors_submit D sels w)) \<Longrightarrow> \<not> isFill e"
  by (induction sels arbitrary: w)
     (auto simp: bnd_run isElementVisible_run split: sum.splits if_splits dest: nofill_clickElement)

lemma nofill_loading: "e \<in> set (events (waitForSearchResults_loading D sels w)) \<Longrightarrow> \<not> isFill e"
  by (induction sels arbitrary: w)
     (auto simp: bnd_run try_catch_run isElementVisible_run split: sum.splits if_splits)

lemma nofill_noResults: "e \<in> set (events (getMentorCount_noResults D sels w)) \<Longrightarrow> \<not> isFill e"
  by (induction sels arbitrary: w)
     (auto simp: bnd_run isElementVisible_run split: sum.splits if_splits)

lemma nofill_getMentorCount: "e \<in> set (events (getMentorCount D w)) \<Longrightarrow> \<not> isFill e"
  by (auto simp: getMentorCount_def bnd_run scan_events split: sum.splits if_splits prod.splits
      dest: nofill_noResults)

lemma nofill_waitForSearchResults: "e \<in> set (events (waitForSearchResults D w)) \<Longrightarrow> \<not> isFill e"
  by (auto simp: waitForSearchResults_def bnd_run split: sum.splits if_splits
      dest: nofill_loading nofill_getMentorCount)

lemma fill_typeText:
  "e \<in> set (events (typeText D l txt opts w)) \<Longrightarrow> isFill e \<Longrightarrow> e = EvFill l txt 10000"
  by (auto simp: typeText_def bnd_run try_catch_run waitForElement_run split: sum.splits if_splits)

lemma waitForPageLoad_run:
  "result (waitForPageLoad D t w) =
     (case fst (page_waitForLoadState D NetworkIdle (Some (case t of None \<Rightarrow> 30000 | Some n \<Rightarrow> n)) w) of
        Inr u \<Rightarrow> Inr ()
      | Inl e \<Rightarrow> Inl (Error (''Page failed to load within ''
            @ string_of_nat (case t of None \<Rightarrow> 30000 | Some n \<Rightarrow> n) @ ''ms: '' @ error_toString e)))"
  "events (waitForPageLoad D t w) = [EvWaitForLoadState NetworkIdle (Some (case t of None \<Rightarrow> 30000 | Some n \<Rightarrow> n))]"
  "after (waitForPageLoad D t w) = snd (page_waitForLoadState D NetworkIdle (Some (case t of None \<Rightarrow> 30000 | Some n \<Rightarrow> n)) w)"
  by (simp_all add: waitForPageLoad_def Let_def try_catch_run split: sum.split)

lemma searchMentors_bound:
  assumes kw: "trim keyword \<noteq> []"
    and loaded: "fst (page_waitForLoadState D NetworkIdle (Some 30000) w) = Inr ()"
    and found: "\<And>w'. result (searchMentors_findInput D searchSelectors w') = Inr (Some (Locator s), s)"
    and probes: "\<And>w'. events (searchMentors_findInput D searchSelectors w') = map (probe 2000) (pre @ [s])"
  shows "(\<exists>rest. events (searchMentors D keyword w)
           = EvWaitForLoadState NetworkIdle (Some 30000) # map (probe 2000) (pre @ [s])
             @ EvWaitFor (Locator s) Visible 30000 # rest)"
    and "\<forall>e\<in>set (events (searchMentors D keyword w)). isFill e \<longrightarrow> e = EvFill (Locator s) keyword 10000"
proof -
  have k: "keyword \<noteq> []" using kw by (auto simp: trim_def)
  let ?w1 = "snd (page_waitForLoadState D NetworkIdle (Some 30000) w)"
  let ?w2 = "after (searchMentors_findInput D searchSelectors ?w1)"
  have ev: "events (searchMentors D keyword w)
      = EvWaitForLoadState NetworkIdle (Some 30000) # map (probe 2000) (pre @ [s])
        @ events (bnd (typeText D (Locator s) keyword None) (\<lambda>_.
              bnd (searchMentors_submit D searchButtonSelectors) (\<lambda>searchSubmitted.
              bnd (if \<not> searchSubmitted
                   then call (EvPress (Locator s) ''Enter'') (locator_press D (Locator s) ''Enter'')
                   else ret ()) (\<lambda>_.
              waitForSearchResults D))) ?w2)"
    using kw k loaded
    by (simp add: searchMentors_def bnd_run [where m = "waitForPageLoad D None"]
        bnd_run [where m = "searchMentors_findInput D searchSelectors"]
        waitForPageLoad_run found probes)
  obtain r where "events (typeText D (Locator s) keyword None ?w2) = EvWaitFor (Locator s) Visible 30000 # r"
    by (simp add: typeText_def bnd_run try_catch_run waitForElement_run)
  then show "\<exists>rest. events (searchMentors D keyword w)
           = EvWaitForLoadState NetworkIdle (Some 30000) # map (probe 2000) (pre @ [s])
             @ EvWaitFor (Locator s) Visible 30000 # rest"
    by (simp add: ev bnd_run [where m = "typeText D (Locator s) keyword None"])
  show "\<forall>e\<in>set (events (searchMentors D keyword w)). isFill e \<longrightarrow> e = EvFill (Locator s) keyword 10000"
    unfolding ev
    by (auto simp: bnd_run probe_def split: sum.splits if_splits
        dest: fill_typeText nofill_submit nofill_waitForSearchResults)
qed

text \<open>
  C1. Let the visibility of each candidate within the probe timeout be given by \<open>vis\<close>,
  and let at least one candidate of the list be visible. Then the list splits at its
  earliest visible candidate \<open>s\<close>: the loop of \<open>searchMentors\<close> returns the locator of \<open>s\<close>,
  having probed the candidates before \<open>s\<close> and \<open>s\<close> itself and none after it, whether or
  not a later one is visible. For the candidate list of \<open>searchMentors\<close>, a keyword that is
  not blank and a page that has loaded, the call that follows the probes is the wait of
  \<open>typeText\<close> for the locator of \<open>s\<close>, and the only text ever typed during the search is
  the keyword into that locator.
\<close>

theorem searchMentors_binds_first:
  assumes static: "\<forall>sel\<in>set sels. \<forall>w.
        (fst (locator_waitFor D (Locator sel) Visible 2000 w) = Inr ()) = vis sel"
    and some: "\<exists>sel\<in>set sels. vis sel"
  shows "\<exists>pre s post. sels = pre @ s # post \<and> vis s \<and> (\<forall>x\<in>set pre. \<not> vis x)
      \<and> (\<forall>w. result (searchMentors_findInput D sels w) = Inr (Some (Locator s), s)
              \<and> events (searchMentors_findInput D sels w) = map (probe 2000) (pre @ [s]))
      \<and> (sels = searchSelectors \<longrightarrow>
           (\<forall>keyword w.
              trim keyword \<noteq> [] \<and> fst (page_waitForLoadState D NetworkIdle (Some 30000) w) = Inr ()
              \<longrightarrow>
              (\<exists>rest. events (searchMentors D keyword w)
                   = EvWaitForLoadState NetworkIdle (Some 30000) # map (probe 2000) (pre @ [s])
                     @ EvWaitFor (Locator s) Visible 30000 # rest)
              \<and> (\<forall>e\<in>set (events (searchMentors D keyword w)).
                     isFill e \<longrightarrow> e = EvFill (Locator s) keyword 10000)))"
proof -
  from split_list_first_prop [OF some] obtain pre s post where
    dec: "sels = pre @ s # post" "vis s" "\<forall>x\<in>set pre. \<not> vis x"
    by blast
  have st: "\<forall>sel\<in>set (pre @ [s]). \<forall>w.
        (fst (locator_waitFor D (Locator sel) Visible 2000 w) = Inr ()) = vis sel"
    using static unfolding dec(1) by simp
  have fi: "result (searchMentors_findInput D sels w) = Inr (Some (Locator s), s)
              \<and> events (searchMentors_findInput D sels w) = map (probe 2000) (pre @ [s])" for w
    unfolding dec(1) by (rule findInput_first [OF st dec(2,3)])
  have sm: "(\<exists>rest. events (searchMentors D keyword w)
                   = EvWaitForLoadState NetworkIdle (Some 30000) # map (probe 2000) (pre @ [s])
                     @ EvWaitFor (Locator s) Visible 30000 # rest)
              \<and> (\<forall>e\<in>set (events (searchMentors D keyword w)).
                     isFill e \<longrightarrow> e = EvFill (Locator s) keyword 10000)"
    if "sels = searchSelectors" "trim keyword \<noteq> []"
      "fst (page_waitForLoadState D NetworkIdle (Some 30000) w) = Inr ()" for keyword w
  proof -
    have f: "\<And>w'. result (searchMentors_findInput D searchSelectors w') = Inr (Some (Locator s), s)"
      and p: "\<And>w'. events (searchMentors_findInput D searchSelectors w') = map (probe 2000) (pre @ [s])"
      using fi that(1) by simp_all
    show ?thesis
      using searchMentors_bound [OF that(2,3) f p] by (intro conjI)
  qed
  show ?thesis
    using dec fi sm by blast
qed

theorem searchMentors_binds_first_witness:
  \<open>result (searchMentors_findInput searchPage searchSelectors sim0)
     = Inr (Some (Locator ''.search-input''), ''.search-input'')
   \<and> events (searchMentors_findInput searchPage searchSelectors sim0)
     = map (probe 2000)
         [''input[type="search"]'', ''input[placeholder*="search" i]'',
          ''input[placeholder*="cari" i]'', ''input[placeholder*="mentor" i]'',
          ''.search-input'']
   \<and> filter isFill (events (searchMentors searchPage ''Engineer'' sim0))
     = [EvFill (Locator ''.search-input'') ''Engineer'' 10000]
   \<and> (\<exists>pre s post. searchSelectors = pre @ s # post
         \<and> result (searchMentors_findInput searchPage searchSelectors sim0)
             = Inr (Some (Locator s), s)
         \<and> events (searchMentors_findInput searchPage searchSelectors sim0)
             = map (probe 2000) (pre @ [s])
         \<and> (\<exists>rest. events (searchMentors searchPage ''Engineer'' sim0)
               = EvWaitForLoadState NetworkIdle (Some 30000) # map (probe 2000) (pre @ [s])
                 @ EvWaitFor (Locator s) Visible 30000 # rest))\<close>
proof -
  let ?vis = \<open>\<lambda>sel. sel = ''.search-input'' \<or> sel = ''input[name*="search"]''\<close>
  note run = bnd_run isElementVisible_run searchPage_def simDriver_def sim0_def
    searchSelectors_def probe_def
  have static: "\<forall>sel\<in>set searchSelectors. \<forall>w.
        (fst (locator_waitFor searchPage (Locator sel) Visible 2000 w) = Inr ()) = ?vis sel"
    by (simp add: searchPage_def simDriver_def)
  have some: "\<exists>sel\<in>set searchSelectors. ?vis sel"
    by (simp add: searchSelectors_def)
  have r: \<open>result (searchMentors_findInput searchPage searchSelectors sim0)
     = Inr (Some (Locator ''.search-input''), ''.search-input'')\<close>
    by (simp add: run)
  have e: \<open>events (searchMentors_findInput searchPage searchSelectors sim0)
     = map (probe 2000)
         [''input[type="search"]'', ''input[placeholder*="search" i]'',
          ''input[placeholder*="cari" i]'', ''input[placeholder*="mentor" i]'',
          ''.search-input'']\<close>
    by (simp add: run)
  have f: \<open>filter isFill (events (searchMentors searchPage ''Engineer'' sim0))
     = [EvFill (Locator ''.search-input'') ''Engineer'' 10000]\<close>
    by (simp add: searchMentors_def waitForSearchResults_def getMentorCount_def typeText_def
        clickElement_def trim_def isWhiteSpace_def
        bnd_run try_catch_run isElementVisible_run waitForElement_run waitForPageLoad_run
        searchPage_def simDriver_def sim0_def cardSelectors_def noResultsSelectors_def
        loadingSelectors_def searchSelectors_def searchButtonSelectors_def)
  have kw: "trim ''Engineer'' \<noteq> []"
    by (simp add: trim_def isWhiteSpace_def)
  have loaded: "fst (page_waitForLoadState searchPage NetworkIdle (Some 30000) sim0) = Inr ()"
    by (simp add: searchPage_def simDriver_def)
  from searchMentors_binds_first [OF static some]
  obtain pre s post where dec: "searchSelectors = pre @ s # post"
    and fi: "\<forall>w. result (searchMentors_findInput searchPage searchSelectors w)
                 = Inr (Some (Locator s), s)
               \<and> events (searchMentors_findInput searchPage searchSelectors w)
                 = map (probe 2000) (pre @ [s])"
    and sm: "\<forall>keyword w.
              trim keyword \<noteq> []
              \<and> fst (page_waitForLoadState searchPage NetworkIdle (Some 30000) w) = Inr ()
              \<longrightarrow>
              (\<exists>rest. events (searchMentors searchPage keyword w)
                   = EvWaitForLoadState NetworkIdle (Some 30000) # map (probe 2000) (pre @ [s])
                     @ EvWaitFor (Locator s) Visible 30000 # rest)
              \<and> (\<forall>e\<in>set (events (searchMentors searchPage keyword w)).
                     isFill e \<longrightarrow> e = EvFill (Locator s) keyword 10000)"
    by blast
  from fi have a: "result (searchMentors_findInput searchPage searchSelectors sim0)
             = Inr (Some (Locator s), s)
         \<and> events (searchMentors_findInput searchPage searchSelectors sim0)
             = map (probe 2000) (pre @ [s])" ..
  from sm kw loaded have b: "\<exists>rest. events (searchMentors searchPage ''Engineer'' sim0)
               = EvWaitForLoadState NetworkIdle (Some 30000) # map (probe 2000) (pre @ [s])
                 @ EvWaitFor (Locator s) Visible 30000 # rest"
    by blast
  from dec a b have "\<exists>pre s post. searchSelectors = pre @ s # post
         \<and> result (searchMentors_findInput searchPage searchSelectors sim0)
             = Inr (Some (Locator s), s)
         \<and> events (searchMentors_findInput searchPage searchSelectors sim0)
             = map (probe 2000) (pre @ [s])
         \<and> (\<exists>rest. events (searchMentors searchPage ''Engineer'' sim0)
               = EvWaitForLoadState NetworkIdle (Some 30000) # map (probe 2000) (pre @ [s])
                 @ EvWaitFor (Locator s) Visible 30000 # rest)"
    by blast
  with r e f show ?thesis
    by (intro conjI)
qed

end
